theory Spec2Isabelle
  imports Main
begin

section \<open>The environment of frontend\_tester.py\<close>

text \<open>
  The tester drives three external programs (the compiler run by java, llvm-link and lli),
  creates directories, and reads and writes files. The model makes this environment
  explicit: a file system (a map from path strings to nodes), a record of the three
  external programs, and a trace of the calls a spy would observe. A character stands for
  a code point below 256, a string for a Python \<open>str\<close> of such code points. Paths are
  POSIX paths; the file system maps a path string to its node directly. Permissions,
  symbolic links and timeouts are outside the model.
\<close>

type_synonym path = string

datatype node = File string | Dir

type_synonym fs = "path \<rightharpoonup> node"

text \<open>The exceptions the tester lets escape. \<open>LaunchError\<close> is the OSError of
  \<open>subprocess.run\<close> when the executable cannot be started.\<close>

datatype error =
    ValueError
  | FileExistsError
  | FileNotFoundError
  | IsADirectoryError
  | NotADirectoryError
  | LaunchError

text \<open>How one standard stream of a child process is wired: left as inherited (the
  argument of \<open>subprocess.run\<close> not given), \<open>subprocess.DEVNULL\<close>, or an open file.\<close>

datatype redirect = Inherit | DEVNULL | Handle path

text \<open>What a spy on the tester observes, in order: each \<open>subprocess.run\<close> with its
  argument vector and the wiring of stdin, stdout and stderr; each entry into
  \<open>gen_ir\<close>, \<open>run_ir\<close> and \<open>match\<close>; each \<open>res_file.write\<close>; each \<open>print\<close>.\<close>

datatype event =
    Subprocess_run "string list" redirect redirect redirect
  | Enter_gen_ir path
  | Enter_run_ir path path "path option" bool
  | Enter_match path path
  | Write_res path string
  | Print string

text \<open>What \<open>filecmp\<close> knows of a file: its type, its size and its modification time.\<close>

datatype kind = S_IFREG | S_IFDIR

type_synonym signature = "kind \<times> nat \<times> nat"

text \<open>The state: the file system, the trace, and the dictionary \<open>filecmp._cache\<close> of the
  process, which maps two paths and their signatures to the outcome of a comparison. The
  dictionary is a list of entries, looked up from the front.\<close>

record world =
  files :: fs
  trace :: "event list"
  cmp_cache :: "((path \<times> path \<times> signature \<times> signature) \<times> bool) list"

definition emit :: "event \<Rightarrow> world \<Rightarrow> world" where
  "emit e w = w\<lparr>trace := trace w @ [e]\<rparr>"

text \<open>The external programs. The compiler and the linker are arbitrary transformers of
  the file system; the interpreter reads the file system and its standard input and yields
  the bytes it writes to standard output and its return code (negative when killed by a
  signal). \<open>None\<close> means that the process could not be launched. The modification time
  that \<open>os.stat\<close> reports for a path is left to the environment as well: \<open>st_mtime\<close> gives
  it for the moment at which the tester has made the calls of the trace, so that clocks of
  any resolution and programs that set the times of files are covered.\<close>

record programs =
  compiler :: "string list \<Rightarrow> fs \<Rightarrow> fs option"
  linker :: "string list \<Rightarrow> fs \<Rightarrow> fs option"
  lli :: "string list \<Rightarrow> string option \<Rightarrow> fs \<Rightarrow> (string \<times> int) option"
  st_mtime :: "event list \<Rightarrow> path \<Rightarrow> nat"

subsection \<open>Strings\<close>

definition TAB :: char where
  "TAB = CHR 0x09"

definition NL :: char where
  "NL = CHR 0x0A"

text \<open>The code points below 256 at which \<open>str.split()\<close> splits, those for which
  \<open>str.isspace\<close> holds: the blank, U+0009 to U+000D, U+001C to U+001F, U+0085 and
  U+00A0.\<close>

definition is_space :: "char \<Rightarrow> bool" where
  "is_space c = (c \<in> set [CHR '' '', CHR 0x09, CHR 0x0A, CHR 0x0B, CHR 0x0C, CHR 0x0D,
                           CHR 0x1C, CHR 0x1D, CHR 0x1E, CHR 0x1F, CHR 0x85, CHR 0xA0])"

text \<open>\<open>str.split()\<close> without arguments: maximal runs of non-separators, no empty
  strings. The second argument is the word read so far.\<close>

fun split_ws :: "string \<Rightarrow> string \<Rightarrow> string list" where
  "split_ws [] cur = (if cur = [] then [] else [cur])"
| "split_ws (c # cs) cur =
     (if is_space c then (if cur = [] then split_ws cs [] else cur # split_ws cs [])
      else split_ws cs (cur @ [c]))"

definition py_split :: "string \<Rightarrow> string list" where
  "py_split s = split_ws s []"

text \<open>\<open>s.ljust(width, ' ')\<close>: spaces are added on the right, nothing is cut.\<close>

definition ljust :: "string \<Rightarrow> nat \<Rightarrow> string" where
  "ljust s width = s @ replicate (width - length s) CHR '' ''"

text \<open>The decimal digit of a number below ten.\<close>

definition digit_char :: "nat \<Rightarrow> char" where
  "digit_char d = ''0123456789'' ! d"

text \<open>\<open>str(n)\<close> for a natural number and for an integer.\<close>

fun str_nat :: "nat \<Rightarrow> string" where
  "str_nat n = (if n < 10 then [digit_char n] else str_nat (n div 10) @ [digit_char (n mod 10)])"

declare str_nat.simps [simp del]

definition str_int :: "int \<Rightarrow> string" where
  "str_int i = (if i < 0 then CHR ''-'' # str_nat (nat (- i)) else str_nat (nat i))"

text \<open>\<open>max\<close> of a list raises ValueError on the empty list.\<close>

fun py_max :: "nat list \<Rightarrow> error + nat" where
  "py_max [] = Inl ValueError"
| "py_max (x # xs) = Inr (fold max xs x)"

subsection \<open>pathlib\<close>

text \<open>The pieces of a string between slashes, empty ones included.\<close>

fun split_slash :: "string \<Rightarrow> string \<Rightarrow> string list" where
  "split_slash [] cur = [cur]"
| "split_slash (c # cs) cur =
     (if c = CHR ''/'' then cur # split_slash cs [] else split_slash cs (cur @ [c]))"

text \<open>The parts of a \<open>PurePosixPath\<close> after the root: empty pieces and single dots are
  dropped, double dots are kept.\<close>

definition path_parts :: "string \<Rightarrow> string list" where
  "path_parts s = filter (\<lambda>p. p \<noteq> [] \<and> p \<noteq> ''.'') (split_slash s [])"

text \<open>The root: one slash, or two when the string starts with exactly two.\<close>

definition path_root :: "string \<Rightarrow> string" where
  "path_root s =
     (if take 2 s = ''//'' \<and> take 3 s \<noteq> ''///'' then ''//''
      else if take 1 s = ''/'' then ''/'' else [])"

fun join_slash :: "string list \<Rightarrow> string" where
  "join_slash [] = []"
| "join_slash [a] = a"
| "join_slash (a # b # bs) = a @ CHR ''/'' # join_slash (b # bs)"

text \<open>\<open>str\<close> of the path with a root and parts; the empty path is a dot.\<close>

definition path_str :: "string \<Rightarrow> string list \<Rightarrow> string" where
  "path_str r ps = (if r = [] \<and> ps = [] then ''.'' else r @ join_slash ps)"

text \<open>\<open>str(Path(s))\<close>.\<close>

definition Path :: "string \<Rightarrow> path" where
  "Path s = path_str (path_root s) (path_parts s)"

text \<open>\<open>str(Path(a)/b)\<close>: an absolute \<open>b\<close> replaces \<open>a\<close>.\<close>

definition joinpath :: "string \<Rightarrow> string \<Rightarrow> path" where
  "joinpath a b =
     (if path_root b \<noteq> [] then Path b
      else path_str (path_root a) (path_parts a @ path_parts b))"

subsection \<open>The clock\<close>

record datetime =
  year :: nat
  month :: nat
  day :: nat
  hour :: nat
  minute :: nat
  second :: nat
  microsecond :: nat

text \<open>The ranges of the fields of a Python \<open>datetime\<close>.\<close>

definition valid_datetime :: "datetime \<Rightarrow> bool" where
  "valid_datetime d =
     (1 \<le> year d \<and> year d \<le> 9999 \<and> 1 \<le> month d \<and> month d \<le> 12 \<and> 1 \<le> day d \<and> day d \<le> 31
      \<and> hour d < 24 \<and> minute d < 60 \<and> second d < 60 \<and> microsecond d < 1000000)"

text \<open>A two-digit field of \<open>strftime\<close>, padded with a zero.\<close>

definition pad2 :: "nat \<Rightarrow> string" where
  "pad2 n = (if n < 10 then CHR ''0'' # str_nat n else str_nat n)"

text \<open>\<open>strftime(r"%m%d-%H%M%S")\<close>.\<close>

definition strftime :: "datetime \<Rightarrow> string" where
  "strftime d = pad2 (month d) @ pad2 (day d) @ ''-'' @ pad2 (hour d) @ pad2 (minute d)
                @ pad2 (second d)"

subsection \<open>File system calls\<close>

definition os_path_exists :: "fs \<Rightarrow> path \<Rightarrow> bool" where
  "os_path_exists f p = (f p \<noteq> None)"

text \<open>The head of \<open>os.path.split\<close> for a path of pathlib: all before the last slash. The
  empty result stands for the current directory or the root, which always exist.\<close>

definition parent :: "path \<Rightarrow> path" where
  "parent p = rev (drop 1 (dropWhile (\<lambda>c. c \<noteq> CHR ''/'') (rev p)))"

text \<open>The directories a path leads through, from the top: \<open>a\<close> and \<open>a/b\<close> for
  \<open>a/b/c\<close>. The root and the current directory are not listed; they always exist.\<close>

definition ancestors :: "path \<Rightarrow> path list" where
  "ancestors p = map (\<lambda>i. take i p) (filter (\<lambda>i. p ! i = CHR ''/'') [1..<length p])"

text \<open>Walking down these directories stops at the first that is missing, with
  FileNotFoundError, or that is a regular file, with NotADirectoryError.\<close>

fun resolve :: "fs \<Rightarrow> path list \<Rightarrow> error option" where
  "resolve f [] = None"
| "resolve f (a # as) =
     (case f a of
        None \<Rightarrow> Some FileNotFoundError
      | Some (File c) \<Rightarrow> Some NotADirectoryError
      | Some Dir \<Rightarrow> resolve f as)"

text \<open>What a system call raises for a path that has no node.\<close>

definition missing_error :: "fs \<Rightarrow> path \<Rightarrow> error" where
  "missing_error f p = (case resolve f (ancestors p) of Some e \<Rightarrow> e | None \<Rightarrow> FileNotFoundError)"

definition mkdir :: "path \<Rightarrow> fs \<Rightarrow> error + fs" where
  "mkdir p f =
     (if f p \<noteq> None then Inl FileExistsError
      else case resolve f (ancestors p) of
             Some e \<Rightarrow> Inl e
           | None \<Rightarrow> Inr (f(p \<mapsto> Dir)))"

text \<open>\<open>os.makedirs(name)\<close> with \<open>exist_ok=False\<close>: the missing directory part is created
  first, where a FileExistsError is passed over, then the directory itself, which must not
  exist.\<close>

function makedirs :: "path \<Rightarrow> fs \<Rightarrow> error + fs" where
  "makedirs name f =
     (case (if parent name \<noteq> [] \<and> \<not> os_path_exists f (parent name)
            then makedirs (parent name) f else Inr f) of
        Inl e \<Rightarrow> (if e = FileExistsError then mkdir name f else Inl e)
      | Inr f1 \<Rightarrow> mkdir name f1)"
  by pat_completeness auto
termination
proof (relation "measure (\<lambda>(name, f). length name)")
  fix name :: path and f :: fs
  assume "parent name \<noteq> [] \<and> \<not> os_path_exists f (parent name)"
  then have ne: "parent name \<noteq> []"
    by simp
  let ?ys = "dropWhile (\<lambda>c. c \<noteq> CHR ''/'') (rev name)"
  from ne have "drop 1 ?ys \<noteq> []"
    unfolding parent_def by (metis rev.simps(1))
  then have "?ys \<noteq> []"
    by (metis drop_Nil)
  then have "length (drop 1 ?ys) < length ?ys"
    by simp
  also have "length ?ys \<le> length (rev name)"
    by (rule length_dropWhile_le)
  finally have "length (parent name) < length name"
    by (simp add: parent_def)
  then show "((parent name, f), (name, f)) \<in> measure (\<lambda>(name, f). length name)"
    by simp
qed simp

declare makedirs.simps [simp del]

text \<open>\<open>open(p, 'w+')\<close>: the file is created or emptied.\<close>

definition open_w :: "path \<Rightarrow> fs \<Rightarrow> error + fs" where
  "open_w p f =
     (case f p of
        Some Dir \<Rightarrow> Inl IsADirectoryError
      | Some (File c) \<Rightarrow> Inr (f(p \<mapsto> File []))
      | None \<Rightarrow>
          (case resolve f (ancestors p) of
             Some e \<Rightarrow> Inl e
           | None \<Rightarrow> Inr (f(p \<mapsto> File []))))"

text \<open>\<open>open(p, 'a+')\<close>: the file is created when missing and kept as it is otherwise.\<close>

definition open_a :: "path \<Rightarrow> fs \<Rightarrow> error + fs" where
  "open_a p f =
     (case f p of
        Some Dir \<Rightarrow> Inl IsADirectoryError
      | Some (File c) \<Rightarrow> Inr f
      | None \<Rightarrow>
          (case resolve f (ancestors p) of
             Some e \<Rightarrow> Inl e
           | None \<Rightarrow> Inr (f(p \<mapsto> File []))))"

text \<open>\<open>open(p, 'r')\<close>, giving the bytes a reader of the handle sees.\<close>

definition open_r :: "path \<Rightarrow> fs \<Rightarrow> error + string" where
  "open_r p f =
     (case f p of
        Some Dir \<Rightarrow> Inl IsADirectoryError
      | Some (File c) \<Rightarrow> Inr c
      | None \<Rightarrow> Inl (missing_error f p))"

text \<open>Bytes written through a handle opened for appending go to the end of the file.\<close>

definition append_to :: "path \<Rightarrow> string \<Rightarrow> fs \<Rightarrow> fs" where
  "append_to p d f = (case f p of Some (File c) \<Rightarrow> f(p \<mapsto> File (c @ d)) | _ \<Rightarrow> f(p \<mapsto> File d))"

text \<open>\<open>os.path.getsize(p)\<close>. The size the system reports for a directory is not
  modelled: the tester asks for the size of the capture file only while it holds it open.\<close>

definition os_path_getsize :: "fs \<Rightarrow> path \<Rightarrow> error + nat" where
  "os_path_getsize f p =
     (case f p of
        Some (File c) \<Rightarrow> Inr (length c)
      | Some Dir \<Rightarrow> Inr 0
      | None \<Rightarrow> Inl (missing_error f p))"

text \<open>\<open>_sig(os.stat(p))\<close>: the type, the size and the modification time. \<open>os.stat\<close>
  raises for a path without a node. The size of a directory is not modelled; \<open>filecmp\<close>
  does not look at it.\<close>

definition stat_sig :: "programs \<Rightarrow> world \<Rightarrow> path \<Rightarrow> error + signature" where
  "stat_sig ps w p =
     (case files w p of
        None \<Rightarrow> Inl (missing_error (files w) p)
      | Some (File c) \<Rightarrow> Inr (S_IFREG, length c, st_mtime ps (trace w) p)
      | Some Dir \<Rightarrow> Inr (S_IFDIR, 0, st_mtime ps (trace w) p))"

text \<open>\<open>_do_cmp(f1, f2)\<close> reads both files and compares their bytes.\<close>

definition do_cmp :: "fs \<Rightarrow> path \<Rightarrow> path \<Rightarrow> bool" where
  "do_cmp f f1 f2 =
     (case f f1 of
        Some (File a) \<Rightarrow> (case f f2 of Some (File b) \<Rightarrow> a = b | _ \<Rightarrow> False)
      | _ \<Rightarrow> False)"

text \<open>\<open>len(_cache)\<close>: the number of keys.\<close>

definition cache_len :: "('k \<times> bool) list \<Rightarrow> nat" where
  "cache_len c = length (remdups (map fst c))"

text \<open>\<open>filecmp.cmp(f1, f2, shallow=False)\<close>. Both paths are inspected; anything but two
  regular files is unequal, and so are files of different sizes. Otherwise the outcome
  stored in the cache under the two paths and signatures is returned, if there is one,
  whatever the files hold by now. Only without one are the bytes compared and the outcome
  stored, after the cache has been emptied if it has more than 100 entries.\<close>

definition filecmp_cmp :: "programs \<Rightarrow> world \<Rightarrow> path \<Rightarrow> path \<Rightarrow> (error + bool) \<times> world" where
  "filecmp_cmp ps w f1 f2 =
     (case stat_sig ps w f1 of
        Inl e \<Rightarrow> (Inl e, w)
      | Inr s1 \<Rightarrow>
          (case stat_sig ps w f2 of
             Inl e \<Rightarrow> (Inl e, w)
           | Inr s2 \<Rightarrow>
               if \<not> (fst s1 = S_IFREG \<and> fst s2 = S_IFREG) then (Inr False, w)
               else if fst (snd s1) \<noteq> fst (snd s2) then (Inr False, w)
               else
                 (case map_of (cmp_cache w) (f1, f2, s1, s2) of
                    Some outcome \<Rightarrow> (Inr outcome, w)
                  | None \<Rightarrow>
                      (let outcome = do_cmp (files w) f1 f2;
                           cache = (if cache_len (cmp_cache w) > 100 then [] else cmp_cache w)
                       in (Inr outcome, w\<lparr>cmp_cache := ((f1, f2, s1, s2), outcome) # cache\<rparr>)))))"

text \<open>The \<open>echo\<close> utility, taken to be installed: its arguments separated by single
  blanks, then a newline. The one argument the tester passes is a decimal number, which
  \<open>echo\<close> does not read as an option.\<close>

fun unwords :: "string list \<Rightarrow> string" where
  "unwords [] = []"
| "unwords [a] = a"
| "unwords (a # b # bs) = a @ CHR '' '' # unwords (b # bs)"

definition echo :: "string list \<Rightarrow> string" where
  "echo args = unwords args @ [NL]"

section \<open>FrontendAutoTester\<close>

text \<open>Modelled from the spec: the class \<open>TestCase\<close> of the module \<open>caseloader\<close>, which
  the tester imports and which is not among the sources. A test case exposes a source
  path, an optional input path, the path of the expected output, and the names derived from
  the source path for the capture, the compiled and the linked file. The fields are the
  attributes the tester reads; \<open>sy_path\<close> stands for \<open>str(tc.sy_path)\<close>.\<close>

record testcase =
  sy_path :: path
  in_path :: "path option"
  std_out_path :: path
  gen_out_name :: string
  ll_name :: string
  bc_name :: string

record tester =
  java_path :: path
  compiler_path :: path
  testcases :: "testcase list"
  root_dir :: path
  ir_dir :: path
  out_dir :: path
  res_path :: path
  max_path_width :: nat

definition run_dir_name :: "datetime \<Rightarrow> string" where
  "run_dir_name now = ''testgen-'' @ strftime now"

text \<open>\<open>__init__\<close>, with the clock reading of \<open>datetime.now()\<close> and the file system as
  arguments. The result is the exception or the instance, and the file system left behind.
  The fields that the source keeps as \<open>Path\<close> objects hold the strings of these paths.\<close>

definition init :: "path \<Rightarrow> testcase list \<Rightarrow> path \<Rightarrow> path \<Rightarrow> datetime \<Rightarrow> fs \<Rightarrow> (error + tester) \<times> fs" where
  "init compiler_path' testcases' java_path' gen_dir now f =
     (let root_dir' = joinpath gen_dir (run_dir_name now);
          ir_dir' = joinpath root_dir' ''ir'';
          out_dir' = joinpath root_dir' ''out'';
          res_path' = joinpath root_dir' ''result.log''
      in case py_max (map (\<lambda>tc. length (sy_path tc)) testcases') of
           Inl e \<Rightarrow> (Inl e, f)
         | Inr width \<Rightarrow>
             (case makedirs root_dir' f of
                Inl e \<Rightarrow> (Inl e, f)
              | Inr f1 \<Rightarrow>
                  (case makedirs ir_dir' f1 of
                     Inl e \<Rightarrow> (Inl e, f1)
                   | Inr f2 \<Rightarrow>
                       (case makedirs out_dir' f2 of
                          Inl e \<Rightarrow> (Inl e, f2)
                        | Inr f3 \<Rightarrow>
                            (Inr \<lparr>java_path = Path java_path', compiler_path = Path compiler_path',
                                  testcases = testcases', root_dir = root_dir',
                                  ir_dir = ir_dir', out_dir = out_dir', res_path = res_path',
                                  max_path_width = width\<rparr>, f3)))))"

subsection \<open>Child processes\<close>

text \<open>\<open>subprocess.run(argv, stdout=DEVNULL, stderr=DEVNULL)\<close> for the compiler and the
  linker: the call is observed, then the program acts on the file system. The return code
  is not looked at.\<close>

definition run_tool :: "(string list \<Rightarrow> fs \<Rightarrow> fs option) \<Rightarrow> string list \<Rightarrow> world \<Rightarrow> (error + unit) \<times> world" where
  "run_tool prog argv w =
     (let w1 = emit (Subprocess_run argv Inherit DEVNULL DEVNULL) w
      in case prog argv (files w1) of
           None \<Rightarrow> (Inl LaunchError, w1)
         | Some f' \<Rightarrow> (Inr (), w1\<lparr>files := f'\<rparr>))"

text \<open>\<open>subprocess.run(argv, [stdin=in_file,] stdout=out_file, stderr=DEVNULL)\<close> for the
  interpreter. The standard input is the path and content of the opened input file, or
  \<open>None\<close> when the argument is not given. The output goes to the end of the capture file.\<close>

definition run_lli :: "programs \<Rightarrow> string list \<Rightarrow> (path \<times> string) option \<Rightarrow> path \<Rightarrow> world \<Rightarrow> (error + int) \<times> world" where
  "run_lli ps argv stdin out w =
     (let w1 = emit (Subprocess_run argv (case stdin of None \<Rightarrow> Inherit | Some (p, c) \<Rightarrow> Handle p)
                       (Handle out) DEVNULL) w
      in case lli ps argv (map_option snd stdin) (files w1) of
           None \<Rightarrow> (Inl LaunchError, w1)
         | Some (output, returncode) \<Rightarrow>
             (Inr returncode, w1\<lparr>files := append_to out output (files w1)\<rparr>))"

text \<open>\<open>subprocess.run(argv, stdout=out_file)\<close> where the program is \<open>echo\<close>.\<close>

definition run_echo :: "string list \<Rightarrow> path \<Rightarrow> world \<Rightarrow> world" where
  "run_echo argv out w =
     (let w1 = emit (Subprocess_run argv Inherit (Handle out) Inherit) w
      in w1\<lparr>files := append_to out (echo (tl argv)) (files w1)\<rparr>)"

subsection \<open>gen\_ir\<close>

definition ll_path :: "tester \<Rightarrow> testcase \<Rightarrow> path" where
  "ll_path t tc = ir_dir t @ ''/'' @ ll_name tc"

definition cmd_compile :: "tester \<Rightarrow> testcase \<Rightarrow> string" where
  "cmd_compile t tc =
     java_path t @ '' -jar '' @ compiler_path t @ '' -s '' @ sy_path tc
     @ '' -emit-llvm '' @ ll_path t tc"

definition bc_path :: "tester \<Rightarrow> testcase \<Rightarrow> path" where
  "bc_path t tc = ir_dir t @ ''/'' @ bc_name tc"

definition cmd_link :: "tester \<Rightarrow> testcase \<Rightarrow> string" where
  "cmd_link t tc = ''llvm-link '' @ ll_path t tc @ '' sylib.ll -o '' @ bc_path t tc"

text \<open>The result is \<open>Inr None\<close> where the source returns None, \<open>Inr (Some bc_path)\<close>
  where it returns the path, and \<open>Inl\<close> where \<open>subprocess.run\<close> raises.\<close>

definition gen_ir :: "programs \<Rightarrow> tester \<Rightarrow> testcase \<Rightarrow> world \<Rightarrow> (error + path option) \<times> world" where
  "gen_ir ps t tc w0 =
     (let w = emit (Enter_gen_ir (sy_path tc)) w0
      in case run_tool (compiler ps) (py_split (cmd_compile t tc)) w of
           (Inl e, w1) \<Rightarrow> (Inl e, w1)
         | (Inr u, w1) \<Rightarrow>
             if \<not> os_path_exists (files w1) (ll_path t tc) then (Inr None, w1)
             else
               (case run_tool (linker ps) (py_split (cmd_link t tc)) w1 of
                  (Inl e, w2) \<Rightarrow> (Inl e, w2)
                | (Inr u, w2) \<Rightarrow>
                    if \<not> os_path_exists (files w2) (bc_path t tc) then (Inr None, w2)
                    else (Inr (Some (bc_path t tc)), w2)))"

subsection \<open>run\_ir\<close>

definition cmd_lli :: "path \<Rightarrow> string" where
  "cmd_lli bc = ''lli '' @ bc"

text \<open>The echo of the return code, lines 167 to 172.\<close>

definition echo_returncode :: "path \<Rightarrow> int \<Rightarrow> world \<Rightarrow> (error + unit) \<times> world" where
  "echo_returncode out returncode w =
     (case os_path_getsize (files w) out of
        Inl e \<Rightarrow> (Inl e, w)
      | Inr sz \<Rightarrow>
          (let w1 = (if sz > 0 then run_echo [''echo''] out w else w)
           in (Inr (), run_echo (py_split (''echo '' @ str_int returncode)) out w1)))"

definition run_ir :: "programs \<Rightarrow> path \<Rightarrow> path \<Rightarrow> path option \<Rightarrow> bool \<Rightarrow> world \<Rightarrow> (error + unit) \<times> world" where
  "run_ir ps bc out inp echo_ret w0 =
     (let w = emit (Enter_run_ir bc out inp echo_ret) w0
      in case open_a out (files w) of
           Inl e \<Rightarrow> (Inl e, w)
         | Inr f1 \<Rightarrow>
             (let w1 = w\<lparr>files := f1\<rparr>
              in case (case inp of
                         None \<Rightarrow> run_lli ps (py_split (cmd_lli bc)) None out w1
                       | Some ip \<Rightarrow>
                           (case open_r ip (files w1) of
                              Inl e \<Rightarrow> (Inl e, w1)
                            | Inr content \<Rightarrow>
                                run_lli ps (py_split (cmd_lli bc)) (Some (ip, content)) out w1)) of
                   (Inl e, w2) \<Rightarrow> (Inl e, w2)
                 | (Inr returncode, w2) \<Rightarrow>
                     if echo_ret then echo_returncode out returncode w2 else (Inr (), w2)))"

subsection \<open>match\<close>

definition match :: "programs \<Rightarrow> path \<Rightarrow> path \<Rightarrow> world \<Rightarrow> (error + bool) \<times> world" where
  "match ps file1 file2 w0 =
     (let w = emit (Enter_match file1 file2) w0
      in filecmp_cmp ps w file1 file2)"

subsection \<open>run\<close>

text \<open>\<open>self.out_dir/testcase.gen_out_name\<close>, a join of pathlib.\<close>

definition out_path :: "tester \<Rightarrow> testcase \<Rightarrow> path" where
  "out_path t tc = joinpath (out_dir t) (gen_out_name tc)"

text \<open>Lines 72 to 78: the stages of one test case, giving its status.\<close>

definition case_status :: "programs \<Rightarrow> tester \<Rightarrow> bool \<Rightarrow> testcase \<Rightarrow> world \<Rightarrow> (error + string) \<times> world" where
  "case_status ps t echo_ret tc w =
     (case gen_ir ps t tc w of
        (Inl e, w1) \<Rightarrow> (Inl e, w1)
      | (Inr None, w1) \<Rightarrow> (Inr ''Compilation Error'', w1)
      | (Inr (Some bc), w1) \<Rightarrow>
          (case run_ir ps bc (out_path t tc) (in_path tc) echo_ret w1 of
             (Inl e, w2) \<Rightarrow> (Inl e, w2)
           | (Inr u, w2) \<Rightarrow>
               (case match ps (out_path t tc) (std_out_path tc) w2 of
                  (Inl e, w3) \<Rightarrow> (Inl e, w3)
                | (Inr b, w3) \<Rightarrow> (Inr (if b then ''Accecpted'' else ''Wrong Answer''), w3))))"

text \<open>Lines 80 to 83: the line of the log.\<close>

definition log_line :: "tester \<Rightarrow> testcase \<Rightarrow> string \<Rightarrow> string" where
  "log_line t tc status =
     ljust (sy_path tc) (max_path_width t) @ [CHR '' '', TAB] @ status @ [NL]"

text \<open>\<open>res_file.write(log)\<close>: the call is observed and the bytes reach the log. The handle
  was opened by \<open>run\<close> on the emptied file and its writes follow one another, so each
  lands at the end.\<close>

definition write_res :: "path \<Rightarrow> string \<Rightarrow> world \<Rightarrow> world" where
  "write_res p d w = (emit (Write_res p d) w)\<lparr>files := append_to p d (files w)\<rparr>"

text \<open>The body of the loop, lines 70 to 86.\<close>

definition run_case :: "programs \<Rightarrow> tester \<Rightarrow> bool \<Rightarrow> bool \<Rightarrow> testcase \<Rightarrow> world \<Rightarrow> (error + unit) \<times> world" where
  "run_case ps t echo_ret terminal_log tc w =
     (case case_status ps t echo_ret tc w of
        (Inl e, w1) \<Rightarrow> (Inl e, w1)
      | (Inr status, w1) \<Rightarrow>
          (let log = log_line t tc status;
               w2 = write_res (res_path t) log w1
           in (Inr (), if terminal_log then emit (Print log) w2 else w2)))"

fun run_loop :: "programs \<Rightarrow> tester \<Rightarrow> bool \<Rightarrow> bool \<Rightarrow> testcase list \<Rightarrow> world \<Rightarrow> (error + unit) \<times> world" where
  "run_loop ps t echo_ret terminal_log [] w = (Inr (), w)"
| "run_loop ps t echo_ret terminal_log (tc # tcs) w =
     (case run_case ps t echo_ret terminal_log tc w of
        (Inl e, w1) \<Rightarrow> (Inl e, w1)
      | (Inr u, w1) \<Rightarrow> run_loop ps t echo_ret terminal_log tcs w1)"

definition run :: "programs \<Rightarrow> tester \<Rightarrow> bool \<Rightarrow> bool \<Rightarrow> world \<Rightarrow> (error + unit) \<times> world" where
  "run ps t echo_ret terminal_log w =
     (case open_w (res_path t) (files w) of
        Inl e \<Rightarrow> (Inl e, w)
      | Inr f1 \<Rightarrow> run_loop ps t echo_ret terminal_log (testcases t) (w\<lparr>files := f1\<rparr>))"

subsection \<open>Reading the model\<close>

text \<open>The bytes of the regular file at a path, empty when there is none.\<close>

definition content_of :: "fs \<Rightarrow> path \<Rightarrow> string" where
  "content_of f p = (case f p of Some (File c) \<Rightarrow> c | _ \<Rightarrow> [])"

text \<open>The lines handed to \<open>res_file.write\<close> among some events, in order, each with the
  path of the log it went to.\<close>

fun written :: "event list \<Rightarrow> (path \<times> string) list" where
  "written [] = []"
| "written (Write_res p d # es) = (p, d) # written es"
| "written (e # es) = written es"

text \<open>The events a call added to the trace.\<close>

definition new_events :: "world \<Rightarrow> world \<Rightarrow> event list" where
  "new_events w w' = drop (length (trace w)) (trace w')"

text \<open>What \<open>run_ir\<close> appends after the output of the interpreter: with echoing, a
  newline when the capture is not empty by then, and the line of the return code.\<close>

definition echo_text :: "bool \<Rightarrow> string \<Rightarrow> int \<Rightarrow> string" where
  "echo_text echo_ret captured returncode =
     (if echo_ret then (if captured = [] then [] else [NL]) @ str_int returncode @ [NL] else [])"

text \<open>The \<open>echo\<close> processes behind \<open>echo_text\<close>, as the spy sees them.\<close>

definition echo_events :: "bool \<Rightarrow> path \<Rightarrow> string \<Rightarrow> int \<Rightarrow> event list" where
  "echo_events echo_ret out captured returncode =
     (if echo_ret
      then (if captured = [] then [] else [Subprocess_run [''echo''] Inherit (Handle out) Inherit])
           @ [Subprocess_run [''echo'', str_int returncode] Inherit (Handle out) Inherit]
      else [])"

text \<open>The three spellings of a verdict in the log.\<close>

definition labels :: "string set" where
  "labels = {''Compilation Error'', ''Accecpted'', ''Wrong Answer''}"

text \<open>The line of the log as the specification words it: the padded source path, one tab,
  the verdict label, a newline. It is compared with \<open>log_line\<close> below.\<close>

definition spec_log_line :: "tester \<Rightarrow> testcase \<Rightarrow> string \<Rightarrow> string" where
  "spec_log_line t tc status = ljust (sy_path tc) (max_path_width t) @ [TAB] @ status @ [NL]"

section \<open>A concrete batch\<close>

text \<open>Four test cases: \<open>a.sy\<close> compiles, links, prints \<open>hi\<close> and returns 0, as
  expected; \<open>bb.sy\<close> copies its input and returns 1, which the expected answer does not
  mention; the compiler writes nothing for \<open>c.sy\<close>; the linker writes nothing for
  \<open>d.sy\<close>. The compiler and the linker write their last argument and never the log. The
  clock ticks with every call observed.\<close>

definition now0 :: datetime where
  "now0 = \<lparr>year = 2022, month = 7, day = 4, hour = 9, minute = 5, second = 3, microsecond = 0\<rparr>"

text \<open>The same second, some microseconds later; and the next second.\<close>

definition now1 :: datetime where
  "now1 = now0\<lparr>microsecond := 5\<rparr>"

definition now2 :: datetime where
  "now2 = now0\<lparr>second := 4\<rparr>"

definition tcA :: testcase where
  "tcA = \<lparr>sy_path = ''a.sy'', in_path = None, std_out_path = ''a.out'',
           gen_out_name = ''a.txt'', ll_name = ''a.ll'', bc_name = ''a.bc''\<rparr>"

definition tcB :: testcase where
  "tcB = \<lparr>sy_path = ''bb.sy'', in_path = Some ''bb.in'', std_out_path = ''bb.out'',
           gen_out_name = ''bb.txt'', ll_name = ''bb.ll'', bc_name = ''bb.bc''\<rparr>"

definition tcC :: testcase where
  "tcC = \<lparr>sy_path = ''c.sy'', in_path = None, std_out_path = ''c.out'',
           gen_out_name = ''c.txt'', ll_name = ''c.ll'', bc_name = ''c.bc''\<rparr>"

definition tcD :: testcase where
  "tcD = \<lparr>sy_path = ''d.sy'', in_path = None, std_out_path = ''d.out'',
           gen_out_name = ''d.txt'', ll_name = ''d.ll'', bc_name = ''d.bc''\<rparr>"

definition progs0 :: programs where
  "progs0 =
     \<lparr>compiler = (\<lambda>argv f. if ''c.sy'' \<in> set argv
                                \<or> last argv = ''g/testgen-0704-090503/result.log'' then Some f
                             else Some (f(last argv \<mapsto> File ''ll''))),
      linker = (\<lambda>argv f. if ''g/testgen-0704-090503/ir/d.ll'' \<in> set argv
                              \<or> last argv = ''g/testgen-0704-090503/result.log'' then Some f
                           else Some (f(last argv \<mapsto> File ''bc''))),
      lli = (\<lambda>argv stdin f. Some (case stdin of None \<Rightarrow> (''hi'', 0) | Some c \<Rightarrow> (c, 1))),
      st_mtime = (\<lambda>tr p. length tr)\<rparr>"

definition fs0 :: fs where
  "fs0 = [''a.out'' \<mapsto> File [CHR ''h'', CHR ''i'', NL, CHR ''0'', NL],
          ''bb.in'' \<mapsto> File ''42'',
          ''bb.out'' \<mapsto> File ''42'',
          ''e.in'' \<mapsto> File []]"

definition t0 :: tester where
  "t0 = \<lparr>java_path = ''java'', compiler_path = ''c.jar'', testcases = [tcA, tcB, tcC, tcD],
          root_dir = ''g/testgen-0704-090503'', ir_dir = ''g/testgen-0704-090503/ir'',
          out_dir = ''g/testgen-0704-090503/out'',
          res_path = ''g/testgen-0704-090503/result.log'', max_path_width = 5\<rparr>"

text \<open>The world right after the construction of \<open>t0\<close>, in a process that has compared no
  files yet.\<close>

definition w0 :: world where
  "w0 = \<lparr>files = snd (init ''c.jar'' [tcA, tcB, tcC, tcD] ''java'' ''g'' now0 fs0), trace = [],
          cmp_cache = []\<rparr>"

text \<open>The same world with a capture file left over for \<open>a.sy\<close>.\<close>

definition w_old :: world where
  "w_old = w0\<lparr>files := (files w0)(''g/testgen-0704-090503/out/a.txt'' \<mapsto> File ''x'')\<rparr>"

section \<open>Properties of the environment\<close>

lemma init_t0: "fst (init ''c.jar'' [tcA, tcB, tcC, tcD] ''java'' ''g'' now0 fs0) = Inr t0"
  by code_simp

lemma split_ws_no_space:
  "\<forall>c \<in> set s. \<not> is_space c \<Longrightarrow> split_ws s cur = (if cur @ s = [] then [] else [cur @ s])"
  by (induction s arbitrary: cur) auto

lemma digit_char_cases: "d < 10 \<Longrightarrow> digit_char d \<in> set ''0123456789''"
  unfolding digit_char_def by (rule nth_mem) simp

lemma digit_char_no_space: "d < 10 \<Longrightarrow> \<not> is_space (digit_char d)"
  using digit_char_cases [of d] by (auto simp: is_space_def)

lemma str_nat_no_space: "c \<in> set (str_nat n) \<Longrightarrow> \<not> is_space c"
proof (induction n rule: str_nat.induct)
  case (1 n)
  show ?case
  proof (cases "n < 10")
    case True
    with "1.prems" show ?thesis
      by (subst (asm) str_nat.simps) (simp add: digit_char_no_space)
  next
    case False
    from "1.prems" have "c \<in> set (str_nat (n div 10)) \<or> c = digit_char (n mod 10)"
      using False by (subst (asm) str_nat.simps) auto
    then show ?thesis
      using "1.IH" False by (auto simp: digit_char_no_space)
  qed
qed

lemma str_nat_not_Nil: "str_nat n \<noteq> []"
  by (subst str_nat.simps) simp

lemma str_int_no_space: "c \<in> set (str_int i) \<Longrightarrow> \<not> is_space c"
  by (auto simp: str_int_def is_space_def dest: str_nat_no_space split: if_splits)

lemma str_int_not_Nil: "str_int i \<noteq> []"
  by (simp add: str_int_def str_nat_not_Nil)

lemma py_split_echo:
  "py_split (CHR ''e'' # CHR ''c'' # CHR ''h'' # CHR ''o'' # CHR '' '' # str_int i) = [''echo'', str_int i]"
proof -
  have "split_ws (str_int i) [] = [str_int i]"
    using split_ws_no_space [of "str_int i" "[]"] str_int_no_space str_int_not_Nil by auto
  then show ?thesis
    by (simp add: py_split_def is_space_def)
qed

lemma open_a_Inr: "open_a p f = Inr f1 \<Longrightarrow> f1 = f(p \<mapsto> File (content_of f p))"
  by (auto simp: open_a_def content_of_def split: option.splits node.splits if_splits)

lemma append_to_upd: "append_to p d (f(p \<mapsto> File c)) = f(p \<mapsto> File (c @ d))"
  by (simp add: append_to_def)

lemma run_echo_upd:
  "files w p = Some (File c) \<Longrightarrow>
   run_echo argv p w = \<lparr>files = (files w)(p \<mapsto> File (c @ echo (tl argv))),
                        trace = trace w @ [Subprocess_run argv Inherit (Handle p) Inherit],
                        cmp_cache = cmp_cache w\<rparr>"
  by (simp add: run_echo_def emit_def append_to_def Let_def)

section \<open>Properties of the stages\<close>

lemma files_emit [simp]: "files (emit e w) = files w"
  by (simp add: emit_def)

lemma trace_emit [simp]: "trace (emit e w) = trace w @ [e]"
  by (simp add: emit_def)

lemma cmp_cache_emit [simp]: "cmp_cache (emit e w) = cmp_cache w"
  by (simp add: emit_def)

lemma echo_single: "echo [s] = s @ [NL]"
  by (simp add: echo_def)

lemma echo_none: "echo [] = [NL]"
  by (simp add: echo_def)

lemma echo_returncode_upd:
  assumes "files w out = Some (File c)"
  shows "echo_returncode out rc w =
     (Inr (), \<lparr>files = (files w)(out \<mapsto> File (c @ echo_text True c rc)),
               trace = trace w
                 @ (if c = [] then [] else [Subprocess_run [''echo''] Inherit (Handle out) Inherit])
                 @ [Subprocess_run [''echo'', str_int rc] Inherit (Handle out) Inherit],
               cmp_cache = cmp_cache w\<rparr>)"
  using assms
  by (simp add: echo_returncode_def os_path_getsize_def run_echo_upd py_split_echo echo_single
      echo_none echo_text_def Let_def)

lemma run_lli_upd:
  assumes "lli ps argv (map_option snd si) (files w) = Some (output, rc)"
    and "files w out = Some (File c)"
  shows "run_lli ps argv si out w =
     (Inr rc, \<lparr>files = (files w)(out \<mapsto> File (c @ output)),
               trace = trace w @ [Subprocess_run argv
                  (case si of None \<Rightarrow> Inherit | Some (p, x) \<Rightarrow> Handle p) (Handle out) DEVNULL],
               cmp_cache = cmp_cache w\<rparr>)"
  using assms by (simp add: run_lli_def emit_def append_to_def Let_def)

lemma run_ir_result:
  assumes opn: "open_a out (files w) = Inr f1"
    and inp: "inp = None \<and> si = None \<or> (\<exists>ip c. inp = Some ip \<and> open_r ip f1 = Inr c \<and> si = Some (ip, c))"
    and run: "lli ps (py_split (cmd_lli bc)) (map_option snd si) f1 = Some (output, rc)"
  shows "run_ir ps bc out inp echo_ret w =
     (Inr (),
      \<lparr>files = f1(out \<mapsto> File (content_of (files w) out @ output
                   @ echo_text echo_ret (content_of (files w) out @ output) rc)),
       trace = trace w
         @ [Enter_run_ir bc out inp echo_ret,
            Subprocess_run (py_split (cmd_lli bc))
              (case si of None \<Rightarrow> Inherit | Some (p, x) \<Rightarrow> Handle p) (Handle out) DEVNULL]
         @ echo_events echo_ret out (content_of (files w) out @ output) rc,
       cmp_cache = cmp_cache w\<rparr>)"
proof -
  let ?old = "content_of (files w) out"
  let ?w = "emit (Enter_run_ir bc out inp echo_ret) w"
  let ?w1 = "?w\<lparr>files := f1\<rparr>"
  from opn have f1: "f1 out = Some (File ?old)"
    by (auto dest: open_a_Inr)
  have lli1: "run_lli ps (py_split (cmd_lli bc)) si out ?w1 =
     (Inr rc, \<lparr>files = f1(out \<mapsto> File (?old @ output)),
               trace = trace ?w1 @ [Subprocess_run (py_split (cmd_lli bc))
                  (case si of None \<Rightarrow> Inherit | Some (p, x) \<Rightarrow> Handle p) (Handle out) DEVNULL],
               cmp_cache = cmp_cache w\<rparr>)"
  proof -
    have a: "lli ps (py_split (cmd_lli bc)) (map_option snd si) (files ?w1) = Some (output, rc)"
      using run by simp
    have b: "files ?w1 out = Some (File ?old)"
      using f1 by simp
    from run_lli_upd [OF a b] show ?thesis
      by simp
  qed
  have stage: "(case inp of
        None \<Rightarrow> run_lli ps (py_split (cmd_lli bc)) None out ?w1
      | Some ip \<Rightarrow>
          (case open_r ip (files ?w1) of
             Inl e \<Rightarrow> (Inl e, ?w1)
           | Inr content \<Rightarrow> run_lli ps (py_split (cmd_lli bc)) (Some (ip, content)) out ?w1))
     = run_lli ps (py_split (cmd_lli bc)) si out ?w1"
    using inp by auto
  let ?w2 = "\<lparr>files = f1(out \<mapsto> File (?old @ output)),
             trace = trace ?w1 @ [Subprocess_run (py_split (cmd_lli bc))
                (case si of None \<Rightarrow> Inherit | Some (p, x) \<Rightarrow> Handle p) (Handle out) DEVNULL],
             cmp_cache = cmp_cache w\<rparr>"
  have red: "run_ir ps bc out inp echo_ret w =
     (if echo_ret then echo_returncode out rc ?w2 else (Inr (), ?w2))"
    using opn by (simp add: run_ir_def Let_def stage lli1)
  have e: "echo_returncode out rc ?w2 =
    (Inr (), \<lparr>files = (files ?w2)(out \<mapsto> File ((?old @ output) @ echo_text True (?old @ output) rc)),
             trace = trace ?w2
               @ (if ?old @ output = [] then [] else [Subprocess_run [''echo''] Inherit (Handle out) Inherit])
               @ [Subprocess_run [''echo'', str_int rc] Inherit (Handle out) Inherit],
             cmp_cache = cmp_cache ?w2\<rparr>)"
    by (rule echo_returncode_upd) simp
  show ?thesis
  proof (cases echo_ret)
    case False
    with red show ?thesis
      by (simp add: echo_text_def echo_events_def)
  next
    case True
    with red e show ?thesis
      by (simp add: echo_events_def)
  qed
qed

lemma written_append: "written (xs @ ys) = written xs @ written ys"
  by (induction xs rule: written.induct) simp_all

lemma run_tool_trace:
  "trace (snd (run_tool prog argv w)) = trace w @ [Subprocess_run argv Inherit DEVNULL DEVNULL]"
  by (simp add: run_tool_def Let_def split: option.splits)

lemma run_tool_cases:
  "run_tool prog argv w =
     (case prog argv (files w) of
        None \<Rightarrow> (Inl LaunchError, emit (Subprocess_run argv Inherit DEVNULL DEVNULL) w)
      | Some f' \<Rightarrow> (Inr (), (emit (Subprocess_run argv Inherit DEVNULL DEVNULL) w)\<lparr>files := f'\<rparr>))"
  by (simp add: run_tool_def Let_def)

lemma gen_ir_trace:
  "\<exists>evs. trace (snd (gen_ir ps t tc w)) = trace w @ evs \<and> written evs = []"
  by (auto simp: gen_ir_def Let_def run_tool_cases split: option.splits)

lemma run_echo_trace:
  "trace (run_echo argv out w) = trace w @ [Subprocess_run argv Inherit (Handle out) Inherit]"
  by (simp add: run_echo_def Let_def)

lemma echo_returncode_trace:
  "\<exists>evs. trace (snd (echo_returncode out rc w)) = trace w @ evs \<and> written evs = []"
  by (auto simp: echo_returncode_def Let_def run_echo_trace split: sum.splits)

lemma run_lli_trace:
  "\<exists>evs. trace (snd (run_lli ps argv si out w)) = trace w @ evs \<and> written evs = []"
  by (auto simp: run_lli_def Let_def split: option.splits)

lemma run_ir_trace:
  "\<exists>evs. trace (snd (run_ir ps bc out inp echo_ret w)) = trace w @ evs \<and> written evs = []"
proof -
  let ?w = "emit (Enter_run_ir bc out inp echo_ret) w"
  show ?thesis
  proof (cases "open_a out (files w)")
    case (Inl e)
    then show ?thesis
      by (simp add: run_ir_def Let_def)
  next
    case (Inr f1)
    let ?w1 = "?w\<lparr>files := f1\<rparr>"
    let ?stage = "case inp of
        None \<Rightarrow> run_lli ps (py_split (cmd_lli bc)) None out ?w1
      | Some ip \<Rightarrow>
          (case open_r ip (files ?w1) of
             Inl e \<Rightarrow> (Inl e, ?w1)
           | Inr content \<Rightarrow> run_lli ps (py_split (cmd_lli bc)) (Some (ip, content)) out ?w1)"
    have "\<exists>evs. trace (snd ?stage) = trace ?w1 @ evs \<and> written evs = []"
      using run_lli_trace [of ps "py_split (cmd_lli bc)" _ out ?w1]
      by (auto split: option.splits sum.splits)
    then obtain evs where evs: "trace (snd ?stage) = trace w @ Enter_run_ir bc out inp echo_ret # evs"
      and wr: "written evs = []"
      by auto
    have red: "run_ir ps bc out inp echo_ret w =
      (case ?stage of (Inl e, w2) \<Rightarrow> (Inl e, w2)
       | (Inr returncode, w2) \<Rightarrow> if echo_ret then echo_returncode out returncode w2 else (Inr (), w2))"
      using Inr by (simp add: run_ir_def Let_def)
    obtain r w2 where st: "?stage = (r, w2)"
      by (cases ?stage)
    with evs have tw2: "trace w2 = trace w @ Enter_run_ir bc out inp echo_ret # evs"
      by simp
    show ?thesis
    proof (cases r)
      case (Inl e)
      with red st tw2 wr show ?thesis
        by simp
    next
      case (Inr rc)
      obtain evs2 where "trace (snd (echo_returncode out rc w2)) = trace w2 @ evs2" "written evs2 = []"
        using echo_returncode_trace by blast
      with Inr red st tw2 wr show ?thesis
        by (simp add: written_append)
    qed
  qed
qed

lemma match_trace:
  "trace (snd (match ps f1 f2 w)) = trace w @ [Enter_match f1 f2]"
  by (simp add: match_def filecmp_cmp_def Let_def split: sum.splits option.splits)

lemma case_status_trace:
  "\<exists>evs. trace (snd (case_status ps t echo_ret tc w)) = trace w @ evs \<and> written evs = []"
proof -
  obtain r w1 where g: "gen_ir ps t tc w = (r, w1)"
    by (cases "gen_ir ps t tc w")
  obtain evs1 where e1: "trace w1 = trace w @ evs1" "written evs1 = []"
    using gen_ir_trace [of ps t tc w] g by auto
  show ?thesis
  proof (cases r)
    case (Inl e)
    with g e1 show ?thesis
      by (simp add: case_status_def)
  next
    case (Inr obc)
    show ?thesis
    proof (cases obc)
      case None
      with Inr g e1 show ?thesis
        by (simp add: case_status_def)
    next
      case (Some bc)
      obtain r2 w2 where ri: "run_ir ps bc (out_path t tc) (in_path tc) echo_ret w1 = (r2, w2)"
        by (cases "run_ir ps bc (out_path t tc) (in_path tc) echo_ret w1")
      obtain evs2 where e2: "trace w2 = trace w1 @ evs2" "written evs2 = []"
        using run_ir_trace [of ps bc "out_path t tc" "in_path tc" echo_ret w1] ri by auto
      show ?thesis
      proof (cases r2)
        case (Inl e)
        with Some Inr g ri e1 e2 show ?thesis
          by (simp add: case_status_def written_append)
      next
        case (Inr u)
        obtain r3 w3 where m: "match ps (out_path t tc) (std_out_path tc) w2 = (r3, w3)"
          by (cases "match ps (out_path t tc) (std_out_path tc) w2")
        then have "trace w3 = trace w2 @ [Enter_match (out_path t tc) (std_out_path tc)]"
          using match_trace [of ps "out_path t tc" "std_out_path tc" w2] by simp
        with Inr Some \<open>r = Inr obc\<close> g ri m e1 e2 show ?thesis
          by (cases r3) (simp_all add: case_status_def written_append)
      qed
    qed
  qed
qed

lemma case_status_label:
  "fst (case_status ps t echo_ret tc w) = Inr status \<Longrightarrow> status \<in> labels"
  by (auto simp: case_status_def labels_def split: prod.splits sum.splits option.splits if_splits)

lemma run_case_written:
  "\<exists>evs. trace (snd (run_case ps t echo_ret terminal_log tc w)) = trace w @ evs \<and>
     (case fst (run_case ps t echo_ret terminal_log tc w) of
        Inl e \<Rightarrow> written evs = []
      | Inr u \<Rightarrow> \<exists>status \<in> labels. written evs = [(res_path t, log_line t tc status)])"
proof -
  obtain r w1 where c: "case_status ps t echo_ret tc w = (r, w1)"
    by (cases "case_status ps t echo_ret tc w")
  obtain evs where e: "trace w1 = trace w @ evs" "written evs = []"
    using case_status_trace [of ps t echo_ret tc w] c by auto
  show ?thesis
  proof (cases r)
    case (Inl e')
    with c e show ?thesis
      by (simp add: run_case_def)
  next
    case (Inr status)
    with c have "status \<in> labels"
      using case_status_label [of ps t echo_ret tc w status] by simp
    with Inr c e show ?thesis
      by (auto simp: run_case_def Let_def write_res_def written_append)
  qed
qed

lemma content_of_upd: "content_of (f(p \<mapsto> File c)) p = c"
  by (simp add: content_of_def)

lemma run_ir_success:
  assumes "fst (run_ir ps bc out inp echo_ret w) = Inr u"
  shows "\<exists>f1 si outp rc. open_a out (files w) = Inr f1
     \<and> (inp = None \<and> si = None \<or> (\<exists>ip c. inp = Some ip \<and> open_r ip f1 = Inr c \<and> si = Some (ip, c)))
     \<and> lli ps (py_split (cmd_lli bc)) (map_option snd si) f1 = Some (outp, rc)"
proof (cases "open_a out (files w)")
  case (Inl e)
  with assms show ?thesis
    by (simp add: run_ir_def Let_def)
next
  case (Inr f1)
  note o = this
  show ?thesis
  proof (cases inp)
    case None
    show ?thesis
    proof (cases "lli ps (py_split (cmd_lli bc)) None f1")
      case None
      with assms o \<open>inp = None\<close> show ?thesis
        by (simp add: run_ir_def run_lli_def Let_def)
    next
      case (Some res)
      with o \<open>inp = None\<close> show ?thesis
        by (cases res) auto
    qed
  next
    case (Some ip)
    note i = this
    show ?thesis
    proof (cases "open_r ip f1")
      case (Inl e)
      with assms o i show ?thesis
        by (simp add: run_ir_def Let_def)
    next
      case (Inr c)
      show ?thesis
      proof (cases "lli ps (py_split (cmd_lli bc)) (Some c) f1")
        case None
        with assms o i Inr show ?thesis
          by (simp add: run_ir_def run_lli_def Let_def)
      next
        case (Some res)
        obtain outp rc where "res = (outp, rc)"
          by (cases res)
        with Some have "lli ps (py_split (cmd_lli bc)) (map_option snd (Some (ip, c))) f1 = Some (outp, rc)"
          by simp
        with o i Inr show ?thesis
          by blast
      qed
    qed
  qed
qed

lemma run_ir_capture_is_file:
  assumes "fst (run_ir ps bc out inp echo_ret w) = Inr u"
  shows "files (snd (run_ir ps bc out inp echo_ret w)) out =
     Some (File (content_of (files (snd (run_ir ps bc out inp echo_ret w))) out))"
proof -
  from run_ir_success [OF assms] obtain f1 si outp rc where
    "open_a out (files w) = Inr f1"
    "inp = None \<and> si = None \<or> (\<exists>ip c. inp = Some ip \<and> open_r ip f1 = Inr c \<and> si = Some (ip, c))"
    "lli ps (py_split (cmd_lli bc)) (map_option snd si) f1 = Some (outp, rc)"
    by blast
  from run_ir_result [OF this, of echo_ret] show ?thesis
    by (simp add: content_of_def)
qed

lemma new_events_append: "trace w' = trace w @ evs \<Longrightarrow> new_events w w' = evs"
  by (simp add: new_events_def)

lemma run_loop_written:
  "\<exists>statuses evs. length statuses \<le> length tcs \<and> set statuses \<subseteq> labels
     \<and> trace (snd (run_loop ps t echo_ret terminal_log tcs w)) = trace w @ evs
     \<and> written evs = map (\<lambda>(tc, status). (res_path t, log_line t tc status)) (zip tcs statuses)
     \<and> (fst (run_loop ps t echo_ret terminal_log tcs w) = Inr () \<longrightarrow> length statuses = length tcs)"
proof (induction tcs arbitrary: w)
  case Nil
  show ?case
    by simp
next
  case (Cons tc tcs)
  obtain r w1 where c: "run_case ps t echo_ret terminal_log tc w = (r, w1)"
    by (cases "run_case ps t echo_ret terminal_log tc w")
  from run_case_written [of ps t echo_ret terminal_log tc w] c
  obtain evs1 where e1: "trace w1 = trace w @ evs1"
    and w1: "case r of Inl e \<Rightarrow> written evs1 = []
             | Inr u \<Rightarrow> \<exists>status \<in> labels. written evs1 = [(res_path t, log_line t tc status)]"
    by auto
  show ?case
  proof (cases r)
    case (Inl e)
    with c e1 w1 have "length ([] :: string list) \<le> length (tc # tcs) \<and> set [] \<subseteq> labels
       \<and> trace (snd (run_loop ps t echo_ret terminal_log (tc # tcs) w)) = trace w @ evs1
       \<and> written evs1 = map (\<lambda>(tc, status). (res_path t, log_line t tc status)) (zip (tc # tcs) [])
       \<and> (fst (run_loop ps t echo_ret terminal_log (tc # tcs) w) = Inr () \<longrightarrow> length ([] :: string list) = length (tc # tcs))"
      by simp
    then show ?thesis
      by blast
  next
    case (Inr u)
    with w1 obtain status where s: "status \<in> labels"
      and ws: "written evs1 = [(res_path t, log_line t tc status)]"
      by auto
    from Cons.IH [of w1] obtain statuses evs where
      ih: "length statuses \<le> length tcs" "set statuses \<subseteq> labels"
        "trace (snd (run_loop ps t echo_ret terminal_log tcs w1)) = trace w1 @ evs"
        "written evs = map (\<lambda>(tc, status). (res_path t, log_line t tc status)) (zip tcs statuses)"
        "fst (run_loop ps t echo_ret terminal_log tcs w1) = Inr () \<longrightarrow> length statuses = length tcs"
      by blast
    have "length (status # statuses) \<le> length (tc # tcs) \<and> set (status # statuses) \<subseteq> labels
       \<and> trace (snd (run_loop ps t echo_ret terminal_log (tc # tcs) w)) = trace w @ (evs1 @ evs)
       \<and> written (evs1 @ evs) = map (\<lambda>(tc, status). (res_path t, log_line t tc status)) (zip (tc # tcs) (status # statuses))
       \<and> (fst (run_loop ps t echo_ret terminal_log (tc # tcs) w) = Inr () \<longrightarrow> length (status # statuses) = length (tc # tcs))"
      using c Inr e1 s ws ih by (simp add: written_append)
    then show ?thesis
      by blast
  qed
qed

lemma gen_ir_frame:
  assumes "\<forall>argv f f'. compiler ps argv f = Some f' \<longrightarrow> f' p = f p"
    and "\<forall>argv f f'. linker ps argv f = Some f' \<longrightarrow> f' p = f p"
  shows "files (snd (gen_ir ps t tc w)) p = files w p"
proof -
  have c: "\<And>argv f f'. compiler ps argv f = Some f' \<Longrightarrow> f' p = f p"
    using assms(1) by blast
  have l: "\<And>argv f f'. linker ps argv f = Some f' \<Longrightarrow> f' p = f p"
    using assms(2) by blast
  show ?thesis
  proof (cases "compiler ps (py_split (cmd_compile t tc)) (files w)")
    case None
    then show ?thesis
      by (simp add: gen_ir_def Let_def run_tool_cases)
  next
    case (Some f1)
    note c1 = this
    from c [OF this] have f1: "f1 p = files w p" .
    show ?thesis
    proof (cases "linker ps (py_split (cmd_link t tc)) f1")
      case None
      with c1 f1 show ?thesis
        by (simp add: gen_ir_def Let_def run_tool_cases)
    next
      case (Some f2)
      from l [OF this] f1 have "f2 p = files w p"
        by simp
      with c1 Some f1 show ?thesis
        by (simp add: gen_ir_def Let_def run_tool_cases)
    qed
  qed
qed

lemma run_ir_frame:
  assumes "fst (run_ir ps bc out inp echo_ret w) = Inr u" and "p \<noteq> out"
  shows "files (snd (run_ir ps bc out inp echo_ret w)) p = files w p"
proof -
  from run_ir_success [OF assms(1)] obtain f1 si outp rc where
    h: "open_a out (files w) = Inr f1"
    "inp = None \<and> si = None \<or> (\<exists>ip c. inp = Some ip \<and> open_r ip f1 = Inr c \<and> si = Some (ip, c))"
    "lli ps (py_split (cmd_lli bc)) (map_option snd si) f1 = Some (outp, rc)"
    by blast
  from h(1) have "f1 = (files w)(out \<mapsto> File (content_of (files w) out))"
    by (rule open_a_Inr)
  with run_ir_result [OF h, of echo_ret] assms(2) show ?thesis
    by simp
qed

lemma match_files: "files (snd (match ps f1 f2 w)) = files w"
  by (simp add: match_def filecmp_cmp_def Let_def split: sum.splits option.splits)

lemma case_status_frame:
  assumes "\<forall>argv f f'. compiler ps argv f = Some f' \<longrightarrow> f' p = f p"
    and "\<forall>argv f f'. linker ps argv f = Some f' \<longrightarrow> f' p = f p"
    and "p \<noteq> out_path t tc"
    and "fst (case_status ps t echo_ret tc w) = Inr status"
  shows "files (snd (case_status ps t echo_ret tc w)) p = files w p"
proof -
  obtain r w1 where g: "gen_ir ps t tc w = (r, w1)"
    by (cases "gen_ir ps t tc w")
  with gen_ir_frame [OF assms(1,2), of t tc w] have f1: "files w1 p = files w p"
    by simp
  show ?thesis
  proof (cases r)
    case (Inl e)
    with g assms(4) show ?thesis
      by (simp add: case_status_def)
  next
    case (Inr obc)
    show ?thesis
    proof (cases obc)
      case None
      with Inr g f1 show ?thesis
        by (simp add: case_status_def)
    next
      case (Some bc)
      obtain r2 w2 where ri: "run_ir ps bc (out_path t tc) (in_path tc) echo_ret w1 = (r2, w2)"
        by (cases "run_ir ps bc (out_path t tc) (in_path tc) echo_ret w1")
      show ?thesis
      proof (cases r2)
        case (Inl e)
        with Some Inr g ri assms(4) show ?thesis
          by (simp add: case_status_def)
      next
        case (Inr u)
        with ri have "fst (run_ir ps bc (out_path t tc) (in_path tc) echo_ret w1) = Inr u"
          by simp
        from run_ir_frame [OF this assms(3)] ri have f2: "files w2 p = files w1 p"
          by simp
        obtain r3 w3 where m: "match ps (out_path t tc) (std_out_path tc) w2 = (r3, w3)"
          by (cases "match ps (out_path t tc) (std_out_path tc) w2")
        with match_files [of ps "out_path t tc" "std_out_path tc" w2] have "files w3 = files w2"
          by simp
        with Inr Some \<open>r = Inr obc\<close> g ri m f1 f2 assms(4) show ?thesis
          by (cases r3) (simp_all add: case_status_def)
      qed
    qed
  qed
qed

lemma append_to_content: "content_of (append_to p d f) p = content_of f p @ d"
  by (simp add: append_to_def content_of_def split: option.splits node.splits)

lemma append_to_file: "append_to p d f p = Some (File (content_of (append_to p d f) p))"
  by (simp add: append_to_def content_of_def split: option.splits node.splits)

lemma run_case_log:
  assumes "\<forall>argv f f'. compiler ps argv f = Some f' \<longrightarrow> f' (res_path t) = f (res_path t)"
    and "\<forall>argv f f'. linker ps argv f = Some f' \<longrightarrow> f' (res_path t) = f (res_path t)"
    and "out_path t tc \<noteq> res_path t"
    and "run_case ps t echo_ret terminal_log tc w = (Inr u, w')"
  shows "files w' (res_path t) =
     Some (File (content_of (files w) (res_path t) @ concat (map snd (written (new_events w w')))))"
proof -
  obtain r w1 where c: "case_status ps t echo_ret tc w = (r, w1)"
    by (cases "case_status ps t echo_ret tc w")
  with assms(4) obtain status where r: "r = Inr status"
    by (cases r) (simp_all add: run_case_def)
  from case_status_frame [OF assms(1,2), of t tc echo_ret w status] assms(3) c r
  have f: "files w1 (res_path t) = files w (res_path t)"
    by simp
  obtain evs where e: "trace w1 = trace w @ evs" "written evs = []"
    using case_status_trace [of ps t echo_ret tc w] c by auto
  from assms(4) c r have w': "w' = (if terminal_log
      then emit (Print (log_line t tc status)) (write_res (res_path t) (log_line t tc status) w1)
      else write_res (res_path t) (log_line t tc status) w1)"
    by (simp add: run_case_def Let_def)
  have wr: "written (new_events w w') = [(res_path t, log_line t tc status)]"
    using w' e by (simp add: new_events_def write_res_def written_append)
  have "content_of (files w1) (res_path t) = content_of (files w) (res_path t)"
    using f by (simp add: content_of_def)
  with w' wr show ?thesis
    using append_to_file [of "res_path t" "log_line t tc status" "files w1"]
    by (simp add: write_res_def append_to_content)
qed

lemma run_case_trace_mono:
  "\<exists>evs. trace (snd (run_case ps t echo_ret terminal_log tc w)) = trace w @ evs"
  using run_case_written [of ps t echo_ret terminal_log tc w] by blast

lemma run_loop_log:
  assumes "\<forall>argv f f'. compiler ps argv f = Some f' \<longrightarrow> f' (res_path t) = f (res_path t)"
    and "\<forall>argv f f'. linker ps argv f = Some f' \<longrightarrow> f' (res_path t) = f (res_path t)"
  shows "\<forall>tc \<in> set tcs. out_path t tc \<noteq> res_path t \<Longrightarrow>
    files w (res_path t) = Some (File c0) \<Longrightarrow>
    run_loop ps t echo_ret terminal_log tcs w = (Inr u, w') \<Longrightarrow>
    files w' (res_path t) = Some (File (c0 @ concat (map snd (written (new_events w w')))))"
proof (induction tcs arbitrary: w c0)
  case Nil
  then show ?case
    by (simp add: new_events_def)
next
  case (Cons tc tcs)
  obtain r w1 where c: "run_case ps t echo_ret terminal_log tc w = (r, w1)"
    by (cases "run_case ps t echo_ret terminal_log tc w")
  with Cons.prems(3) obtain u1 where r: "r = Inr u1"
    by (cases r) simp_all
  with c Cons.prems(3) have l: "run_loop ps t echo_ret terminal_log tcs w1 = (Inr u, w')"
    by simp
  from Cons.prems(1) have o: "out_path t tc \<noteq> res_path t" and os: "\<forall>tc \<in> set tcs. out_path t tc \<noteq> res_path t"
    by simp_all
  from c r have c': "run_case ps t echo_ret terminal_log tc w = (Inr u1, w1)"
    by simp
  from Cons.prems(2) have c0: "content_of (files w) (res_path t) = c0"
    by (simp add: content_of_def)
  from run_case_log [OF assms o c'] c0
  have f1: "files w1 (res_path t) = Some (File (c0 @ concat (map snd (written (new_events w w1)))))"
    by simp
  from Cons.IH [OF os f1 l]
  have f': "files w' (res_path t) =
      Some (File ((c0 @ concat (map snd (written (new_events w w1))))
                  @ concat (map snd (written (new_events w1 w')))))" .
  obtain evs1 where e1: "trace w1 = trace w @ evs1"
    using run_case_trace_mono [of ps t echo_ret terminal_log tc w] c by auto
  obtain evs2 where e2: "trace w' = trace w1 @ evs2"
    using run_loop_written [of tcs ps t echo_ret terminal_log w1] l by auto
  from e1 e2 have "new_events w w' = new_events w w1 @ new_events w1 w'"
    by (simp add: new_events_def)
  with f' show ?case
    by (simp add: written_append)
qed

lemma run_log:
  assumes "\<forall>argv f f'. compiler ps argv f = Some f' \<longrightarrow> f' (res_path t) = f (res_path t)"
    and "\<forall>argv f f'. linker ps argv f = Some f' \<longrightarrow> f' (res_path t) = f (res_path t)"
    and "\<forall>tc \<in> set (testcases t). out_path t tc \<noteq> res_path t"
    and "fst (run ps t echo_ret terminal_log w) = Inr ()"
  shows "files (snd (run ps t echo_ret terminal_log w)) (res_path t) =
     Some (File (concat (map snd (written (new_events w (snd (run ps t echo_ret terminal_log w)))))))"
proof (cases "open_w (res_path t) (files w)")
  case (Inl e)
  with assms(4) show ?thesis
    by (simp add: run_def)
next
  case (Inr f1)
  then have f1: "f1 (res_path t) = Some (File [])"
    by (auto simp: open_w_def split: option.splits node.splits if_splits)
  let ?w1 = "w\<lparr>files := f1\<rparr>"
  from Inr have r: "run ps t echo_ret terminal_log w =
      run_loop ps t echo_ret terminal_log (testcases t) ?w1"
    by (simp add: run_def)
  with assms(4) have l: "run_loop ps t echo_ret terminal_log (testcases t) ?w1 =
      (Inr (), snd (run ps t echo_ret terminal_log w))"
    by (simp add: prod_eq_iff)
  have "files ?w1 (res_path t) = Some (File [])"
    using f1 by simp
  from run_loop_log [OF assms(1,2,3) this l] show ?thesis
    by (simp add: new_events_def)
qed

subsection \<open>The cache of filecmp\<close>

lemma filecmp_cmp_miss:
  assumes "files w f1 = Some (File a)" and "files w f2 = Some n2"
    and "\<forall>s1 s2. map_of (cmp_cache w) (f1, f2, s1, s2) = None"
  shows "fst (filecmp_cmp ps w f1 f2) = Inr (n2 = File a)"
proof (cases n2)
  case Dir
  with assms(1,2) show ?thesis
    by (simp add: filecmp_cmp_def stat_sig_def)
next
  case (File b)
  show ?thesis
  proof (cases "length a = length b")
    case False
    then have "a \<noteq> b"
      by auto
    with False File assms(1,2) show ?thesis
      by (simp add: filecmp_cmp_def stat_sig_def)
  next
    case True
    with File assms show ?thesis
      by (auto simp: filecmp_cmp_def stat_sig_def do_cmp_def Let_def)
  qed
qed

lemma filecmp_cmp_hit:
  assumes "files w f1 = Some (File a)" and "files w f2 = Some (File b)"
    and "length a = length b"
    and "map_of (cmp_cache w)
           (f1, f2, (S_IFREG, length a, st_mtime ps (trace w) f1),
            (S_IFREG, length b, st_mtime ps (trace w) f2)) = Some outcome"
  shows "filecmp_cmp ps w f1 f2 = (Inr outcome, w)"
  using assms by (simp add: filecmp_cmp_def stat_sig_def)

lemma filecmp_cmp_missing:
  assumes "files w f1 = Some n1" and "files w f2 = None"
  shows "filecmp_cmp ps w f1 f2 = (Inl (missing_error (files w) f2), w)"
  using assms by (cases n1) (simp_all add: filecmp_cmp_def stat_sig_def)

lemma filecmp_cmp_cache_shape:
  "cmp_cache (snd (filecmp_cmp ps w f1 f2)) = cmp_cache w
   \<or> (\<exists>k b. cmp_cache (snd (filecmp_cmp ps w f1 f2)) =
          ((f1, f2, k), b) # (if cache_len (cmp_cache w) > 100 then [] else cmp_cache w))"
  by (simp add: filecmp_cmp_def Let_def split: sum.splits option.splits)

lemma filecmp_cmp_cache_other:
  assumes "(g1, g2) \<noteq> (f1, f2)" and "\<forall>s1 s2. map_of (cmp_cache w) (g1, g2, s1, s2) = None"
  shows "map_of (cmp_cache (snd (filecmp_cmp ps w f1 f2))) (g1, g2, s1, s2) = None"
proof -
  from assms(2) have n: "map_of (cmp_cache w) (g1, g2, s1, s2) = None"
    by blast
  from filecmp_cmp_cache_shape [of ps w f1 f2] show ?thesis
  proof
    assume "cmp_cache (snd (filecmp_cmp ps w f1 f2)) = cmp_cache w"
    with n show ?thesis
      by simp
  next
    assume "\<exists>k b. cmp_cache (snd (filecmp_cmp ps w f1 f2)) =
          ((f1, f2, k), b) # (if cache_len (cmp_cache w) > 100 then [] else cmp_cache w)"
    then obtain k b where "cmp_cache (snd (filecmp_cmp ps w f1 f2)) =
          ((f1, f2, k), b) # (if cache_len (cmp_cache w) > 100 then [] else cmp_cache w)"
      by blast
    with n assms(1) show ?thesis
      by auto
  qed
qed

lemma run_tool_cache: "cmp_cache (snd (run_tool prog argv w)) = cmp_cache w"
  by (simp add: run_tool_cases split: option.splits)

lemma gen_ir_cache: "cmp_cache (snd (gen_ir ps t tc w)) = cmp_cache w"
  by (auto simp: gen_ir_def Let_def run_tool_cases split: option.splits)

lemma run_ir_cache:
  assumes "fst (run_ir ps bc out inp echo_ret w) = Inr u"
  shows "cmp_cache (snd (run_ir ps bc out inp echo_ret w)) = cmp_cache w"
proof -
  from run_ir_success [OF assms] obtain f1 si outp rc where
    "open_a out (files w) = Inr f1"
    "inp = None \<and> si = None \<or> (\<exists>ip c. inp = Some ip \<and> open_r ip f1 = Inr c \<and> si = Some (ip, c))"
    "lli ps (py_split (cmd_lli bc)) (map_option snd si) f1 = Some (outp, rc)"
    by blast
  from run_ir_result [OF this, of echo_ret] show ?thesis
    by simp
qed

lemma run_lli_cache: "cmp_cache (snd (run_lli ps argv si out w)) = cmp_cache w"
  by (simp add: run_lli_def Let_def split: option.splits prod.splits)

lemma run_echo_cache: "cmp_cache (run_echo argv out w) = cmp_cache w"
  by (simp add: run_echo_def Let_def)

lemma echo_returncode_cache: "cmp_cache (snd (echo_returncode out rc w)) = cmp_cache w"
  by (simp add: echo_returncode_def Let_def run_echo_cache split: sum.splits)

lemma match_cache_other:
  assumes "(g1, g2) \<noteq> (f1, f2)" and "\<forall>s1 s2. map_of (cmp_cache w) (g1, g2, s1, s2) = None"
  shows "map_of (cmp_cache (snd (match ps f1 f2 w))) (g1, g2, s1, s2) = None"
  using assms filecmp_cmp_cache_other [of g1 g2 f1 f2 "emit (Enter_match f1 f2) w" ps s1 s2]
  by (simp add: match_def Let_def)

lemma run_ir_cache_any: "cmp_cache (snd (run_ir ps bc out inp echo_ret w)) = cmp_cache w"
proof (cases "open_a out (files w)")
  case (Inl e)
  then show ?thesis
    by (simp add: run_ir_def Let_def)
next
  case (Inr f1)
  let ?w1 = "(emit (Enter_run_ir bc out inp echo_ret) w)\<lparr>files := f1\<rparr>"
  let ?stage = "case inp of
      None \<Rightarrow> run_lli ps (py_split (cmd_lli bc)) None out ?w1
    | Some ip \<Rightarrow>
        (case open_r ip (files ?w1) of
           Inl e \<Rightarrow> (Inl e, ?w1)
         | Inr content \<Rightarrow> run_lli ps (py_split (cmd_lli bc)) (Some (ip, content)) out ?w1)"
  have "cmp_cache (snd ?stage) = cmp_cache ?w1"
    using run_lli_cache [of ps "py_split (cmd_lli bc)" _ out ?w1]
    by (auto split: option.splits sum.splits)
  then have c: "cmp_cache (snd ?stage) = cmp_cache w"
    by simp
  have red: "run_ir ps bc out inp echo_ret w =
    (case ?stage of (Inl e, w2) \<Rightarrow> (Inl e, w2)
     | (Inr returncode, w2) \<Rightarrow> if echo_ret then echo_returncode out returncode w2 else (Inr (), w2))"
    using Inr by (simp add: run_ir_def Let_def)
  obtain r w2 where st: "?stage = (r, w2)"
    by (cases ?stage)
  with c have w2: "cmp_cache w2 = cmp_cache w"
    by simp
  show ?thesis
  proof (cases r)
    case (Inl e)
    with red st w2 show ?thesis
      by simp
  next
    case (Inr rc)
    with red st w2 show ?thesis
      by (simp add: echo_returncode_cache)
  qed
qed

text \<open>The stages of a test case store an outcome for its own two paths only: a pair of
  paths for which nothing is cached before a case with another pair has nothing cached
  after it. So in a process that has compared none of them before, every case of a batch
  with distinct pairs of capture and expected answer meets an empty cache for its pair.\<close>

lemma case_status_cache_other:
  assumes "(g1, g2) \<noteq> (out_path t tc, std_out_path tc)"
    and "\<forall>s1 s2. map_of (cmp_cache w) (g1, g2, s1, s2) = None"
  shows "map_of (cmp_cache (snd (case_status ps t echo_ret tc w))) (g1, g2, s1, s2) = None"
proof -
  obtain r w1 where g: "gen_ir ps t tc w = (r, w1)"
    by (cases "gen_ir ps t tc w")
  with gen_ir_cache [of ps t tc w] have c1: "cmp_cache w1 = cmp_cache w"
    by simp
  from assms(2) have n: "map_of (cmp_cache w) (g1, g2, s1, s2) = None"
    by blast
  with c1 have n1: "map_of (cmp_cache w1) (g1, g2, s1, s2) = None"
    by simp
  show ?thesis
  proof (cases r)
    case (Inl e)
    with g n1 show ?thesis
      by (simp add: case_status_def)
  next
    case (Inr obc)
    show ?thesis
    proof (cases obc)
      case None
      with Inr g n1 show ?thesis
        by (simp add: case_status_def)
    next
      case (Some bc)
      obtain r2 w2 where ri: "run_ir ps bc (out_path t tc) (in_path tc) echo_ret w1 = (r2, w2)"
        by (cases "run_ir ps bc (out_path t tc) (in_path tc) echo_ret w1")
      with run_ir_cache_any [of ps bc "out_path t tc" "in_path tc" echo_ret w1] c1
      have c2: "cmp_cache w2 = cmp_cache w"
        by simp
      show ?thesis
      proof (cases r2)
        case (Inl e)
        with Some Inr g ri c2 n show ?thesis
          by (simp add: case_status_def)
      next
        case (Inr u)
        obtain r3 w3 where m: "match ps (out_path t tc) (std_out_path tc) w2 = (r3, w3)"
          by (cases "match ps (out_path t tc) (std_out_path tc) w2")
        from assms(2) c2 have "\<forall>s1 s2. map_of (cmp_cache w2) (g1, g2, s1, s2) = None"
          by simp
        from match_cache_other [OF assms(1) this, of ps s1 s2] m
        have "map_of (cmp_cache w3) (g1, g2, s1, s2) = None"
          by simp
        with Inr Some \<open>r = Inr obc\<close> g ri m show ?thesis
          by (cases r3) (simp_all add: case_status_def)
      qed
    qed
  qed
qed

lemma run_case_cache_other:
  assumes "(g1, g2) \<noteq> (out_path t tc, std_out_path tc)"
    and "\<forall>s1 s2. map_of (cmp_cache w) (g1, g2, s1, s2) = None"
  shows "map_of (cmp_cache (snd (run_case ps t echo_ret terminal_log tc w))) (g1, g2, s1, s2) = None"
proof -
  obtain r w1 where c: "case_status ps t echo_ret tc w = (r, w1)"
    by (cases "case_status ps t echo_ret tc w")
  with case_status_cache_other [OF assms, of ps echo_ret s1 s2]
  have "map_of (cmp_cache w1) (g1, g2, s1, s2) = None"
    by simp
  with c show ?thesis
    by (cases r) (simp_all add: run_case_def Let_def write_res_def)
qed

text \<open>Without an expected answer the comparison raises and the case has no status.\<close>

lemma missing_expected_answer_raises:
  assumes "gen_ir ps t tc w = (Inr (Some bc), w1)"
    and "run_ir ps bc (out_path t tc) (in_path tc) echo_ret w1 = (Inr (), w2)"
    and "\<not> os_path_exists (files w2) (std_out_path tc)"
  shows "fst (case_status ps t echo_ret tc w) = Inl (missing_error (files w2) (std_out_path tc))"
proof -
  have cap: "files w2 (out_path t tc) = Some (File (content_of (files w2) (out_path t tc)))"
    using run_ir_capture_is_file [of ps bc "out_path t tc" "in_path tc" echo_ret w1 "()"] assms(2)
    by simp
  let ?w = "emit (Enter_match (out_path t tc) (std_out_path tc)) w2"
  from assms(3) have "files ?w (std_out_path tc) = None"
    by (simp add: os_path_exists_def)
  moreover from cap have "files ?w (out_path t tc) = Some (File (content_of (files w2) (out_path t tc)))"
    by simp
  ultimately have "filecmp_cmp ps ?w (out_path t tc) (std_out_path tc) =
      (Inl (missing_error (files ?w) (std_out_path tc)), ?w)"
    by (rule filecmp_cmp_missing [rotated])
  then have "match ps (out_path t tc) (std_out_path tc) w2 =
      (Inl (missing_error (files w2) (std_out_path tc)), ?w)"
    by (simp add: match_def Let_def)
  with assms(1,2) show ?thesis
    by (simp add: case_status_def)
qed

text \<open>With an outcome in the cache under the two paths and their present signatures the
  files are not read: a cached \<open>True\<close> gives \<open>Accecpted\<close> whatever the two files of
  equal size hold by now.\<close>

lemma cached_outcome_is_returned:
  assumes "gen_ir ps t tc w = (Inr (Some bc), w1)"
    and "run_ir ps bc (out_path t tc) (in_path tc) echo_ret w1 = (Inr (), w2)"
    and "files w2 (out_path t tc) = Some (File a)"
    and "files w2 (std_out_path tc) = Some (File b)"
    and "length a = length b"
    and "map_of (cmp_cache w2)
           (out_path t tc, std_out_path tc,
            (S_IFREG, length a,
             st_mtime ps (trace w2 @ [Enter_match (out_path t tc) (std_out_path tc)]) (out_path t tc)),
            (S_IFREG, length b,
             st_mtime ps (trace w2 @ [Enter_match (out_path t tc) (std_out_path tc)]) (std_out_path tc)))
         = Some True"
  shows "fst (case_status ps t echo_ret tc w) = Inr ''Accecpted''"
proof -
  let ?w = "emit (Enter_match (out_path t tc) (std_out_path tc)) w2"
  have "filecmp_cmp ps ?w (out_path t tc) (std_out_path tc) = (Inr True, ?w)"
  proof (rule filecmp_cmp_hit [where a = a and b = b])
    show "files ?w (out_path t tc) = Some (File a)"
      using assms(3) by simp
    show "files ?w (std_out_path tc) = Some (File b)"
      using assms(4) by simp
    show "length a = length b"
      by (rule assms(5))
    show "map_of (cmp_cache ?w)
           (out_path t tc, std_out_path tc,
            (S_IFREG, length a, st_mtime ps (trace ?w) (out_path t tc)),
            (S_IFREG, length b, st_mtime ps (trace ?w) (std_out_path tc))) = Some True"
      using assms(6) by simp
  qed
  then have "match ps (out_path t tc) (std_out_path tc) w2 = (Inr True, ?w)"
    by (simp add: match_def Let_def)
  with assms(1,2) show ?thesis
    by (simp add: case_status_def)
qed

text \<open>The width the constructor computes.\<close>

lemma py_max_Max: "py_max xs = Inr m \<Longrightarrow> xs \<noteq> [] \<and> m = Max (set xs)"
proof (cases xs)
  case Nil
  assume "py_max xs = Inr m"
  with Nil show ?thesis
    by simp
next
  case (Cons a list)
  assume "py_max xs = Inr m"
  with Cons have "m = fold max list a"
    by simp
  also have "\<dots> = Max (set (a # list))"
    by (rule Max.set_eq_fold [symmetric])
  finally show ?thesis
    using Cons by simp
qed

lemma init_max_path_width:
  assumes "init compiler_path' tcs java_path' gen_dir now f = (Inr t, f')"
  shows "testcases t = tcs \<and> tcs \<noteq> []
    \<and> max_path_width t = Max (set (map (\<lambda>tc. length (sy_path tc)) tcs))"
proof -
  from assms obtain m where m: "py_max (map (\<lambda>tc. length (sy_path tc)) tcs) = Inr m"
    and "max_path_width t = m" and "testcases t = tcs"
    by (auto simp: init_def Let_def split: sum.splits)
  with py_max_Max [OF m] show ?thesis
    by auto
qed

section \<open>Properties of the clock\<close>

lemma digit_char_inj: "a < 10 \<Longrightarrow> b < 10 \<Longrightarrow> digit_char a = digit_char b \<Longrightarrow> a = b"
proof -
  assume a: "a < 10" and b: "b < 10" and e: "digit_char a = digit_char b"
  have d: "distinct ''0123456789''"
    by simp
  have "a < length ''0123456789''" "b < length ''0123456789''"
    using a b by simp_all
  with d e show "a = b"
    unfolding digit_char_def by (simp only: nth_eq_iff_index_eq)
qed

lemma pad2_digits: "n < 100 \<Longrightarrow> pad2 n = [digit_char (n div 10), digit_char (n mod 10)]"
proof (cases "n < 10")
  case True
  then have "str_nat n = [digit_char n]"
    by (subst str_nat.simps) simp
  with True show ?thesis
    by (simp add: pad2_def digit_char_def)
next
  case False
  assume "n < 100"
  with False have "n div 10 < 10"
    by simp
  then have "str_nat (n div 10) = [digit_char (n div 10)]"
    by (subst str_nat.simps) simp
  with False have "str_nat n = [digit_char (n div 10), digit_char (n mod 10)]"
    by (subst str_nat.simps) simp
  with False show ?thesis
    by (simp add: pad2_def)
qed

lemma pad2_inj: "n < 100 \<Longrightarrow> m < 100 \<Longrightarrow> pad2 n = pad2 m \<Longrightarrow> n = m"
proof -
  assume n: "n < 100" and m: "m < 100" and e: "pad2 n = pad2 m"
  from e n m have hi: "digit_char (n div 10) = digit_char (m div 10)"
    and lo: "digit_char (n mod 10) = digit_char (m mod 10)"
    by (simp_all add: pad2_digits)
  from n m have "n div 10 < 10" "m div 10 < 10"
    by simp_all
  then have "n div 10 = m div 10"
    using hi by (rule digit_char_inj)
  moreover have "n mod 10 = m mod 10"
    using _ _ lo by (rule digit_char_inj) simp_all
  ultimately show "n = m"
    by (metis div_mult_mod_eq)
qed

lemma pad2_length: "n < 100 \<Longrightarrow> length (pad2 n) = 2"
  by (simp add: pad2_digits)

section \<open>Facts about the concrete batch\<close>

lemma str_int_0: "str_int 0 = ''0''"
  by code_simp

lemma str_int_1: "str_int 1 = ''1''"
  by code_simp

lemma out_path_tcA: "out_path t0 tcA = ''g/testgen-0704-090503/out/a.txt''"
  by code_simp

lemma open_a_fresh:
  "open_a ''g/testgen-0704-090503/out/a.txt'' (files w0) =
     Inr ((files w0)(''g/testgen-0704-090503/out/a.txt'' \<mapsto> File []))"
proof -
  have "files w0 ''g/testgen-0704-090503/out/a.txt'' = None"
    by code_simp
  moreover have "resolve (files w0) (ancestors ''g/testgen-0704-090503/out/a.txt'') = None"
    by code_simp
  ultimately show ?thesis
    by (simp add: open_a_def)
qed

lemma content_fresh: "content_of (files w0) ''g/testgen-0704-090503/out/a.txt'' = []"
  by code_simp

lemma e_in: "files w0 ''e.in'' = Some (File [])"
  by code_simp

lemma argv_lli_tcA:
  "py_split (cmd_lli ''g/testgen-0704-090503/ir/a.bc'') = [''lli'', ''g/testgen-0704-090503/ir/a.bc'']"
  by code_simp

lemma bb_in: "files w0 ''bb.in'' = Some (File ''42'')"
  by code_simp

lemma argv_compile_tcD:
  "py_split (cmd_compile t0 tcD) =
     [''java'', ''-jar'', ''c.jar'', ''-s'', ''d.sy'', ''-emit-llvm'',
      ''g/testgen-0704-090503/ir/d.ll'']"
  by code_simp

lemma argv_link_tcD:
  "py_split (cmd_link t0 tcD) =
     [''llvm-link'', ''g/testgen-0704-090503/ir/d.ll'', ''sylib.ll'', ''-o'',
      ''g/testgen-0704-090503/ir/d.bc'']"
  by code_simp

lemma log_line_tcD:
  "log_line t0 tcD ''Compilation Error'' = ''d.sy  '' @ [TAB] @ ''Compilation Error'' @ [NL]"
  by code_simp

lemma paths_tcD:
  "ll_path t0 tcD = ''g/testgen-0704-090503/ir/d.ll''"
  "bc_path t0 tcD = ''g/testgen-0704-090503/ir/d.bc''"
  by code_simp+

lemma gen_ir_tcA: "fst (gen_ir progs0 t0 tcA w0) = Inr (Some ''g/testgen-0704-090503/ir/a.bc'')"
  by code_simp

lemma run_ir_tcA:
  "fst (run_ir progs0 ''g/testgen-0704-090503/ir/a.bc'' (out_path t0 tcA) (in_path tcA) True
      (snd (gen_ir progs0 t0 tcA w0))) = Inr ()"
  by code_simp

lemma files_after_tcA:
  "map (files (snd (run_ir progs0 ''g/testgen-0704-090503/ir/a.bc'' (out_path t0 tcA) (in_path tcA) True
      (snd (gen_ir progs0 t0 tcA w0))))) [out_path t0 tcA, std_out_path tcA]
   = [Some (File [CHR ''h'', CHR ''i'', NL, CHR ''0'', NL]), Some (File [CHR ''h'', CHR ''i'', NL, CHR ''0'', NL])]"
  by code_simp

lemma gen_ir_tcB: "fst (gen_ir progs0 t0 tcB w0) = Inr (Some ''g/testgen-0704-090503/ir/bb.bc'')"
  by code_simp

lemma run_ir_tcB:
  "fst (run_ir progs0 ''g/testgen-0704-090503/ir/bb.bc'' (out_path t0 tcB) (in_path tcB) True
      (snd (gen_ir progs0 t0 tcB w0))) = Inr ()"
  by code_simp

lemma files_after_tcB:
  "map (files (snd (run_ir progs0 ''g/testgen-0704-090503/ir/bb.bc'' (out_path t0 tcB) (in_path tcB) True
      (snd (gen_ir progs0 t0 tcB w0))))) [out_path t0 tcB, std_out_path tcB]
   = [Some (File [CHR ''4'', CHR ''2'', NL, CHR ''1'', NL]), Some (File ''42'')]"
  by code_simp

lemma argv_compile_tcC:
  "py_split (cmd_compile t0 tcC) =
     [''java'', ''-jar'', ''c.jar'', ''-s'', ''c.sy'', ''-emit-llvm'',
      ''g/testgen-0704-090503/ir/c.ll'']"
  by code_simp

lemma log_line_tcC:
  "log_line t0 tcC ''Compilation Error'' = ''c.sy  '' @ [TAB] @ ''Compilation Error'' @ [NL]"
  by code_simp

lemma w0_trace: "trace w0 = []"
  by (simp add: w0_def)

section \<open>The specified properties\<close>

subsection \<open>Compilation errors\<close>

text \<open>
  C1. Take a test case for which the compiler process runs and, when it has finished, the
  target \<open>ll_path\<close> does not exist. Then \<open>gen_ir\<close> returns None, the status of the case
  is \<open>Compilation Error\<close>, and the calls observed for the case are the entry into
  \<open>gen_ir\<close>, the compiler process, the write of the log line with that status and, with
  \<open>terminal_log\<close>, its print: \<open>run_ir\<close> and \<open>match\<close> are not entered and neither the
  linker nor the interpreter is started.
\<close>

theorem compile_failure_is_compilation_error:
  assumes "compiler ps (py_split (cmd_compile t tc)) (files w) = Some f'"
    and "\<not> os_path_exists f' (ll_path t tc)"
  shows "fst (gen_ir ps t tc w) = Inr None
    \<and> fst (case_status ps t echo_ret tc w) = Inr ''Compilation Error''
    \<and> trace (snd (run_case ps t echo_ret terminal_log tc w)) =
        trace w @ [Enter_gen_ir (sy_path tc),
                   Subprocess_run (py_split (cmd_compile t tc)) Inherit DEVNULL DEVNULL,
                   Write_res (res_path t) (log_line t tc ''Compilation Error'')]
                @ (if terminal_log then [Print (log_line t tc ''Compilation Error'')] else [])"
  using assms
  by (simp add: gen_ir_def run_tool_cases Let_def case_status_def run_case_def write_res_def)

theorem compile_failure_is_compilation_error_witness:
  "compiler progs0 (py_split (cmd_compile t0 tcC)) (files w0) = Some (files w0)
   \<and> \<not> os_path_exists (files w0) (ll_path t0 tcC)
   \<and> fst (gen_ir progs0 t0 tcC w0) = Inr None
   \<and> fst (case_status progs0 t0 True tcC w0) = Inr ''Compilation Error''
   \<and> trace (snd (run_case progs0 t0 True False tcC w0)) =
       [Enter_gen_ir ''c.sy'',
        Subprocess_run [''java'', ''-jar'', ''c.jar'', ''-s'', ''c.sy'', ''-emit-llvm'',
                        ''g/testgen-0704-090503/ir/c.ll''] Inherit DEVNULL DEVNULL,
        Write_res ''g/testgen-0704-090503/result.log''
          (''c.sy  '' @ [TAB] @ ''Compilation Error'' @ [NL])]"
proof -
  have h1: "compiler progs0 (py_split (cmd_compile t0 tcC)) (files w0) = Some (files w0)"
    by (simp add: argv_compile_tcC progs0_def)
  have h2: "\<not> os_path_exists (files w0) (ll_path t0 tcC)"
    by code_simp
  have t: "sy_path tcC = ''c.sy''" "res_path t0 = ''g/testgen-0704-090503/result.log''"
    by (simp_all add: tcC_def t0_def)
  from compile_failure_is_compilation_error [OF h1 h2, of True False] h1 h2 show ?thesis
    by (simp add: argv_compile_tcC log_line_tcC w0_trace t)
qed

text \<open>
  C4. Take a test case for which the compiler leaves a file at \<open>ll_path\<close>, the linker
  process runs and, when it has finished, the target \<open>bc_path\<close> does not exist. Then
  \<open>gen_ir\<close> returns None and the status of the case is \<open>Compilation Error\<close>: the line
  written to the log is the very line of a failed compilation, so the report does not tell
  the two failures apart. Neither \<open>run_ir\<close> nor \<open>match\<close> is entered.
\<close>

theorem link_failure_is_compilation_error:
  assumes "compiler ps (py_split (cmd_compile t tc)) (files w) = Some f1"
    and "os_path_exists f1 (ll_path t tc)"
    and "linker ps (py_split (cmd_link t tc)) f1 = Some f2"
    and "\<not> os_path_exists f2 (bc_path t tc)"
  shows "fst (gen_ir ps t tc w) = Inr None
    \<and> fst (case_status ps t echo_ret tc w) = Inr ''Compilation Error''
    \<and> trace (snd (run_case ps t echo_ret terminal_log tc w)) =
        trace w @ [Enter_gen_ir (sy_path tc),
                   Subprocess_run (py_split (cmd_compile t tc)) Inherit DEVNULL DEVNULL,
                   Subprocess_run (py_split (cmd_link t tc)) Inherit DEVNULL DEVNULL,
                   Write_res (res_path t) (log_line t tc ''Compilation Error'')]
                @ (if terminal_log then [Print (log_line t tc ''Compilation Error'')] else [])"
  using assms
  by (simp add: gen_ir_def run_tool_cases Let_def case_status_def run_case_def write_res_def)

theorem link_failure_is_compilation_error_witness:
  "os_path_exists ((files w0)(''g/testgen-0704-090503/ir/d.ll'' \<mapsto> File ''ll'')) (ll_path t0 tcD)
   \<and> \<not> os_path_exists ((files w0)(''g/testgen-0704-090503/ir/d.ll'' \<mapsto> File ''ll'')) (bc_path t0 tcD)
   \<and> fst (gen_ir progs0 t0 tcD w0) = Inr None
   \<and> fst (case_status progs0 t0 True tcD w0) = Inr ''Compilation Error''
   \<and> trace (snd (run_case progs0 t0 True False tcD w0)) =
       [Enter_gen_ir ''d.sy'',
        Subprocess_run [''java'', ''-jar'', ''c.jar'', ''-s'', ''d.sy'', ''-emit-llvm'',
                        ''g/testgen-0704-090503/ir/d.ll''] Inherit DEVNULL DEVNULL,
        Subprocess_run [''llvm-link'', ''g/testgen-0704-090503/ir/d.ll'', ''sylib.ll'', ''-o'',
                        ''g/testgen-0704-090503/ir/d.bc''] Inherit DEVNULL DEVNULL,
        Write_res ''g/testgen-0704-090503/result.log''
          (''d.sy  '' @ [TAB] @ ''Compilation Error'' @ [NL])]"
proof -
  let ?f1 = "(files w0)(''g/testgen-0704-090503/ir/d.ll'' \<mapsto> File ''ll'')"
  have h1: "compiler progs0 (py_split (cmd_compile t0 tcD)) (files w0) = Some ?f1"
    by (simp add: argv_compile_tcD progs0_def)
  have h2: "os_path_exists ?f1 (ll_path t0 tcD)"
    by (simp add: paths_tcD os_path_exists_def)
  have h3: "linker progs0 (py_split (cmd_link t0 tcD)) ?f1 = Some ?f1"
    by (simp add: argv_link_tcD progs0_def)
  have "\<not> os_path_exists (files w0) ''g/testgen-0704-090503/ir/d.bc''"
    by code_simp
  then have h4: "\<not> os_path_exists ?f1 (bc_path t0 tcD)"
    by (simp add: paths_tcD os_path_exists_def)
  have t: "sy_path tcD = ''d.sy''" "res_path t0 = ''g/testgen-0704-090503/result.log''"
    by (simp_all add: tcD_def t0_def)
  from link_failure_is_compilation_error [OF h1 h2 h3 h4, of True False] h2 h4 show ?thesis
    by (simp add: argv_compile_tcD argv_link_tcD log_line_tcD w0_trace t)
qed

subsection \<open>The interpreter stage\<close>

text \<open>
  C2. Let \<open>run_ir\<close> be called with echoing on, let the capture file open, and let the
  interpreter run on its standard input, write \<open>output\<close> and return \<open>returncode\<close>.
  Then the capture file holds what it held before, the output, a newline if that much is
  not empty, the decimal return code and a newline. For the output \<open>hi\<close> and the return
  code 0 it ends with \<open>hi\n0\n\<close>; for no output, the return code 1 and a capture file
  that was empty or missing it is exactly \<open>1\n\<close>.
\<close>

theorem run_ir_echoes_returncode:
  assumes "open_a out (files w) = Inr f1"
    and "inp = None \<and> stdin = None \<or> (\<exists>ip c. inp = Some ip \<and> open_r ip f1 = Inr c \<and> stdin = Some c)"
    and "lli ps (py_split (cmd_lli bc)) stdin f1 = Some (output, returncode)"
  shows "fst (run_ir ps bc out inp True w) = Inr ()
    \<and> files (snd (run_ir ps bc out inp True w)) out =
        Some (File (content_of (files w) out @ output
                    @ (if content_of (files w) out @ output = [] then [] else [NL])
                    @ str_int returncode @ [NL]))
    \<and> (output = ''hi'' \<and> returncode = 0 \<longrightarrow>
         files (snd (run_ir ps bc out inp True w)) out =
           Some (File (content_of (files w) out @ [CHR ''h'', CHR ''i'', NL, CHR ''0'', NL])))
    \<and> (output = [] \<and> returncode = 1 \<and> content_of (files w) out = [] \<longrightarrow>
         files (snd (run_ir ps bc out inp True w)) out = Some (File [CHR ''1'', NL]))"
proof -
  from assms(2) obtain si where
    si: "inp = None \<and> si = None \<or> (\<exists>ip c. inp = Some ip \<and> open_r ip f1 = Inr c \<and> si = Some (ip, c))"
    and st: "map_option snd si = stdin"
    by auto
  from assms(3) st have "lli ps (py_split (cmd_lli bc)) (map_option snd si) f1 = Some (output, returncode)"
    by simp
  from run_ir_result [OF assms(1) si this, of True] show ?thesis
    by (simp add: echo_text_def str_int_0 str_int_1)
qed

theorem run_ir_echoes_returncode_witness:
  "files (snd (run_ir progs0 (bc_path t0 tcA) (out_path t0 tcA) None True w0)) (out_path t0 tcA)
     = Some (File [CHR ''h'', CHR ''i'', NL, CHR ''0'', NL])
   \<and> files (snd (run_ir progs0 (bc_path t0 tcA) (out_path t0 tcA) (Some ''e.in'') True w0))
        (out_path t0 tcA) = Some (File [CHR ''1'', NL])"
proof -
  let ?out = "''g/testgen-0704-090503/out/a.txt''"
  let ?f1 = "(files w0)(?out \<mapsto> File [])"
  have a: "lli progs0 (py_split (cmd_lli (bc_path t0 tcA))) None ?f1 = Some (''hi'', 0)"
    by (simp add: progs0_def)
  have b: "lli progs0 (py_split (cmd_lli (bc_path t0 tcA))) (Some []) ?f1 = Some ([], 1)"
    by (simp add: progs0_def)
  have i1: "(None :: path option) = None \<and> (None :: string option) = None
      \<or> (\<exists>ip c. (None :: path option) = Some ip \<and> open_r ip ?f1 = Inr c \<and> (None :: string option) = Some c)"
    by simp
  have i2: "Some ''e.in'' = (None :: path option) \<and> Some [] = (None :: string option)
      \<or> (\<exists>ip c. Some ''e.in'' = Some ip \<and> open_r ip ?f1 = Inr c \<and> Some [] = Some c)"
    by (simp add: open_r_def e_in)
  from run_ir_echoes_returncode [OF open_a_fresh i1 a] run_ir_echoes_returncode [OF open_a_fresh i2 b]
  show ?thesis
    by (simp add: out_path_tcA content_fresh str_int_0 str_int_1)
qed

text \<open>
  C8. The capture file is opened for appending. If it is a regular file holding \<open>old\<close>
  when \<open>run_ir\<close> is called and the interpreter runs, then afterwards it holds \<open>old\<close>,
  the output and the echo, so \<open>old\<close> is a prefix of it; and the test for a non-empty
  capture before the echo sees \<open>old\<close> too: with echoing and a non-empty \<open>old\<close> the
  separating newline is written even if the interpreter printed nothing.
\<close>

theorem run_ir_appends_to_capture:
  assumes "files w out = Some (File old)"
    and "inp = None \<and> stdin = None
         \<or> (\<exists>ip c. inp = Some ip \<and> open_r ip (files w) = Inr c \<and> stdin = Some c)"
    and "lli ps (py_split (cmd_lli bc)) stdin (files w) = Some (output, returncode)"
  shows "fst (run_ir ps bc out inp echo_ret w) = Inr ()
    \<and> files (snd (run_ir ps bc out inp echo_ret w)) out =
        Some (File (old @ output
                    @ (if echo_ret
                       then (if old @ output = [] then [] else [NL]) @ str_int returncode @ [NL]
                       else [])))
    \<and> take (length old) (content_of (files (snd (run_ir ps bc out inp echo_ret w))) out) = old
    \<and> (echo_ret \<and> old \<noteq> [] \<longrightarrow>
         files (snd (run_ir ps bc out inp echo_ret w)) out =
           Some (File (old @ output @ [NL] @ str_int returncode @ [NL])))"
proof -
  from assms(1) have o: "open_a out (files w) = Inr (files w)"
    by (simp add: open_a_def)
  from assms(1) have c: "content_of (files w) out = old"
    by (simp add: content_of_def)
  from assms(2) obtain si where
    si: "inp = None \<and> si = None
         \<or> (\<exists>ip c. inp = Some ip \<and> open_r ip (files w) = Inr c \<and> si = Some (ip, c))"
    and st: "map_option snd si = stdin"
    by auto
  from assms(3) st
  have "lli ps (py_split (cmd_lli bc)) (map_option snd si) (files w) = Some (output, returncode)"
    by simp
  from run_ir_result [OF o si this, of echo_ret] c show ?thesis
    by (cases echo_ret) (simp_all add: echo_text_def content_of_upd)
qed

theorem run_ir_appends_to_capture_witness:
  "files w_old (out_path t0 tcA) = Some (File ''x'')
   \<and> fst (run_ir progs0 (bc_path t0 tcA) (out_path t0 tcA) (Some ''e.in'') True w_old) = Inr ()
   \<and> files (snd (run_ir progs0 (bc_path t0 tcA) (out_path t0 tcA) (Some ''e.in'') True w_old))
        (out_path t0 tcA) = Some (File [CHR ''x'', NL, CHR ''1'', NL])"
proof -
  have h1: "files w_old (out_path t0 tcA) = Some (File ''x'')"
    by (simp add: w_old_def out_path_tcA)
  have h2: "Some ''e.in'' = (None :: path option) \<and> Some [] = (None :: string option)
      \<or> (\<exists>ip c. Some ''e.in'' = Some ip \<and> open_r ip (files w_old) = Inr c \<and> Some [] = Some c)"
    by (simp add: open_r_def w_old_def e_in)
  have h3: "lli progs0 (py_split (cmd_lli (bc_path t0 tcA))) (Some []) (files w_old) = Some ([], 1)"
    by (simp add: progs0_def)
  from run_ir_appends_to_capture [OF h1 h2 h3, of True] h1 show ?thesis
    by (simp add: str_int_1)
qed

text \<open>
  C9. In \<open>run_ir\<close> the interpreter is the one process started with the capture file as
  standard output and standard error sent to \<open>DEVNULL\<close>. With an input path, its standard
  input is the handle of that file and it reads the content of the file; without one, the
  argument \<open>stdin\<close> is not given to \<open>subprocess.run\<close> and the program receives no
  input from the tester. What it prints in either case is what reaches the capture file.
\<close>

theorem run_ir_wires_stdin:
  assumes "open_a out (files w) = Inr f1"
    and "inp = None \<and> stdin = None \<and> wiring = Inherit
         \<or> (\<exists>ip c. inp = Some ip \<and> open_r ip f1 = Inr c \<and> stdin = Some c \<and> wiring = Handle ip)"
    and "lli ps (py_split (cmd_lli bc)) stdin f1 = Some (output, returncode)"
  shows "trace (snd (run_ir ps bc out inp echo_ret w)) =
       trace w @ [Enter_run_ir bc out inp echo_ret,
                  Subprocess_run (py_split (cmd_lli bc)) wiring (Handle out) DEVNULL]
               @ echo_events echo_ret out (content_of (files w) out @ output) returncode
    \<and> files (snd (run_ir ps bc out inp echo_ret w)) out =
        Some (File (content_of (files w) out @ output
                    @ echo_text echo_ret (content_of (files w) out @ output) returncode))"
proof -
  from assms(2) obtain si where
    si: "inp = None \<and> si = None \<or> (\<exists>ip c. inp = Some ip \<and> open_r ip f1 = Inr c \<and> si = Some (ip, c))"
    and st: "map_option snd si = stdin"
    and wi: "(case si of None \<Rightarrow> Inherit | Some (p, x) \<Rightarrow> Handle p) = wiring"
    by auto
  from assms(3) st have "lli ps (py_split (cmd_lli bc)) (map_option snd si) f1 = Some (output, returncode)"
    by simp
  from run_ir_result [OF assms(1) si this, of echo_ret] wi show ?thesis
    by simp
qed

theorem run_ir_wires_stdin_witness:
  "take 2 (trace (snd (run_ir progs0 (bc_path t0 tcA) (out_path t0 tcA) None False w0))) =
     [Enter_run_ir ''g/testgen-0704-090503/ir/a.bc'' ''g/testgen-0704-090503/out/a.txt'' None False,
      Subprocess_run [''lli'', ''g/testgen-0704-090503/ir/a.bc''] Inherit
        (Handle ''g/testgen-0704-090503/out/a.txt'') DEVNULL]
   \<and> files (snd (run_ir progs0 (bc_path t0 tcA) (out_path t0 tcA) None False w0))
        (out_path t0 tcA) = Some (File ''hi'')
   \<and> take 2 (trace (snd (run_ir progs0 (bc_path t0 tcA) (out_path t0 tcA) (Some ''bb.in'') False w0))) =
     [Enter_run_ir ''g/testgen-0704-090503/ir/a.bc'' ''g/testgen-0704-090503/out/a.txt''
        (Some ''bb.in'') False,
      Subprocess_run [''lli'', ''g/testgen-0704-090503/ir/a.bc''] (Handle ''bb.in'')
        (Handle ''g/testgen-0704-090503/out/a.txt'') DEVNULL]
   \<and> files (snd (run_ir progs0 (bc_path t0 tcA) (out_path t0 tcA) (Some ''bb.in'') False w0))
        (out_path t0 tcA) = Some (File ''42'')"
proof -
  let ?out = "''g/testgen-0704-090503/out/a.txt''"
  let ?f1 = "(files w0)(?out \<mapsto> File [])"
  have a: "lli progs0 (py_split (cmd_lli (bc_path t0 tcA))) None ?f1 = Some (''hi'', 0)"
    by (simp add: progs0_def)
  have b: "lli progs0 (py_split (cmd_lli (bc_path t0 tcA))) (Some ''42'') ?f1 = Some (''42'', 1)"
    by (simp add: progs0_def)
  have i1: "(None :: path option) = None \<and> (None :: string option) = None \<and> Inherit = Inherit
      \<or> (\<exists>ip c. (None :: path option) = Some ip \<and> open_r ip ?f1 = Inr c
            \<and> (None :: string option) = Some c \<and> Inherit = Handle ip)"
    by simp
  have i2: "Some ''bb.in'' = (None :: path option) \<and> Some ''42'' = (None :: string option)
        \<and> Handle ''bb.in'' = Inherit
      \<or> (\<exists>ip c. Some ''bb.in'' = Some ip \<and> open_r ip ?f1 = Inr c \<and> Some ''42'' = Some c
            \<and> Handle ''bb.in'' = Handle ip)"
    by (simp add: open_r_def bb_in)
  have bc: "bc_path t0 tcA = ''g/testgen-0704-090503/ir/a.bc''"
    by code_simp
  from run_ir_wires_stdin [OF open_a_fresh i1 a, of False]
    run_ir_wires_stdin [OF open_a_fresh i2 b, of False]
  show ?thesis
    by (simp add: out_path_tcA content_fresh w0_trace echo_events_def echo_text_def argv_lli_tcA bc)
qed

subsection \<open>The comparison\<close>

text \<open>
  C3. Take a test case for which \<open>gen_ir\<close> returns a path and \<open>run_ir\<close> completes,
  let the expected answer exist when the comparison starts, and let \<open>filecmp\<close> hold no
  outcome for the capture path and the path of the expected answer, as in a process that
  has not compared the two before. Then the capture file is a regular file, and the
  status is \<open>Accecpted\<close> if the expected answer is a regular file with exactly the bytes
  of the capture file, and \<open>Wrong Answer\<close> otherwise. Contents are compared as byte
  sequences; nothing is normalised.
\<close>

theorem verdict_is_exact_comparison:
  assumes "gen_ir ps t tc w = (Inr (Some bc), w1)"
    and "run_ir ps bc (out_path t tc) (in_path tc) echo_ret w1 = (Inr (), w2)"
    and "os_path_exists (files w2) (std_out_path tc)"
    and "\<forall>s1 s2. map_of (cmp_cache w) (out_path t tc, std_out_path tc, s1, s2) = None"
  shows "files w2 (out_path t tc) = Some (File (content_of (files w2) (out_path t tc)))
    \<and> fst (case_status ps t echo_ret tc w) =
        Inr (if files w2 (std_out_path tc) = Some (File (content_of (files w2) (out_path t tc)))
             then ''Accecpted'' else ''Wrong Answer'')"
proof -
  have cap: "files w2 (out_path t tc) = Some (File (content_of (files w2) (out_path t tc)))"
    using run_ir_capture_is_file [of ps bc "out_path t tc" "in_path tc" echo_ret w1 "()"] assms(2)
    by simp
  obtain n where n: "files w2 (std_out_path tc) = Some n"
    using assms(3) by (auto simp: os_path_exists_def)
  have "cmp_cache w1 = cmp_cache w"
    using gen_ir_cache [of ps t tc w] assms(1) by simp
  moreover have "cmp_cache w2 = cmp_cache w1"
    using run_ir_cache [of ps bc "out_path t tc" "in_path tc" echo_ret w1 "()"] assms(2) by simp
  ultimately have c: "cmp_cache w2 = cmp_cache w"
    by simp
  let ?w = "emit (Enter_match (out_path t tc) (std_out_path tc)) w2"
  have "fst (filecmp_cmp ps ?w (out_path t tc) (std_out_path tc)) =
      Inr (n = File (content_of (files w2) (out_path t tc)))"
  proof (rule filecmp_cmp_miss)
    show "files ?w (out_path t tc) = Some (File (content_of (files w2) (out_path t tc)))"
      using cap by simp
    show "files ?w (std_out_path tc) = Some n"
      using n by simp
    show "\<forall>s1 s2. map_of (cmp_cache ?w) (out_path t tc, std_out_path tc, s1, s2) = None"
      using assms(4) c by simp
  qed
  then have "fst (match ps (out_path t tc) (std_out_path tc) w2) =
      Inr (n = File (content_of (files w2) (out_path t tc)))"
    by (simp add: match_def Let_def)
  then obtain w3 where "match ps (out_path t tc) (std_out_path tc) w2 =
      (Inr (n = File (content_of (files w2) (out_path t tc))), w3)"
    by (cases "match ps (out_path t tc) (std_out_path tc) w2") simp
  with assms(1,2) n have "fst (case_status ps t echo_ret tc w) =
      Inr (if n = File (content_of (files w2) (out_path t tc)) then ''Accecpted'' else ''Wrong Answer'')"
    by (simp add: case_status_def)
  with cap n show ?thesis
    by simp
qed

theorem verdict_is_exact_comparison_witness:
  "fst (case_status progs0 t0 True tcA w0) = Inr ''Accecpted''
   \<and> fst (case_status progs0 t0 True tcB w0) = Inr ''Wrong Answer''"
proof -
  let ?wa1 = "snd (gen_ir progs0 t0 tcA w0)"
  let ?wa2 = "snd (run_ir progs0 ''g/testgen-0704-090503/ir/a.bc'' (out_path t0 tcA) (in_path tcA) True ?wa1)"
  have a1: "gen_ir progs0 t0 tcA w0 = (Inr (Some ''g/testgen-0704-090503/ir/a.bc''), ?wa1)"
    using gen_ir_tcA by (simp add: prod_eq_iff)
  have a2: "run_ir progs0 ''g/testgen-0704-090503/ir/a.bc'' (out_path t0 tcA) (in_path tcA) True ?wa1
      = (Inr (), ?wa2)"
    using run_ir_tcA by (simp add: prod_eq_iff)
  have a3: "os_path_exists (files ?wa2) (std_out_path tcA)"
    using files_after_tcA by (simp add: os_path_exists_def)
  let ?wb1 = "snd (gen_ir progs0 t0 tcB w0)"
  let ?wb2 = "snd (run_ir progs0 ''g/testgen-0704-090503/ir/bb.bc'' (out_path t0 tcB) (in_path tcB) True ?wb1)"
  have b1: "gen_ir progs0 t0 tcB w0 = (Inr (Some ''g/testgen-0704-090503/ir/bb.bc''), ?wb1)"
    using gen_ir_tcB by (simp add: prod_eq_iff)
  have b2: "run_ir progs0 ''g/testgen-0704-090503/ir/bb.bc'' (out_path t0 tcB) (in_path tcB) True ?wb1
      = (Inr (), ?wb2)"
    using run_ir_tcB by (simp add: prod_eq_iff)
  have b3: "os_path_exists (files ?wb2) (std_out_path tcB)"
    using files_after_tcB by (simp add: os_path_exists_def)
  have a4: "\<forall>s1 s2. map_of (cmp_cache w0) (out_path t0 tcA, std_out_path tcA, s1, s2) = None"
    by (simp add: w0_def)
  have b4: "\<forall>s1 s2. map_of (cmp_cache w0) (out_path t0 tcB, std_out_path tcB, s1, s2) = None"
    by (simp add: w0_def)
  from verdict_is_exact_comparison [OF a1 a2 a3 a4] verdict_is_exact_comparison [OF b1 b2 b3 b4]
    files_after_tcA files_after_tcB
  show ?thesis
    by (simp add: content_of_def NL_def)
qed

subsection \<open>The log\<close>

text \<open>
  C5, as amended. For every test case whose stages complete, exactly one line is written to
  the result log: the source path, spaces up to the width \<open>max_path_width\<close> (the path is
  aligned to the left and never cut), one more space, one tab, the verdict label and a
  newline, where the label is \<open>Compilation Error\<close>, \<open>Accecpted\<close> or \<open>Wrong Answer\<close>.
  For a tester made by the constructor that width is the greatest length of a source path
  in the batch.
\<close>

theorem log_line_format:
  assumes "fst (run_case ps t echo_ret terminal_log tc w) = Inr ()"
  shows "(\<exists>status \<in> {''Compilation Error'', ''Accecpted'', ''Wrong Answer''}.
       written (new_events w (snd (run_case ps t echo_ret terminal_log tc w))) =
         [(res_path t,
           sy_path tc @ replicate (max_path_width t - length (sy_path tc)) CHR '' ''
           @ [CHR '' '', TAB] @ status @ [NL])])
    \<and> (\<forall>compiler_path' java_path' gen_dir now f f'.
         init compiler_path' (testcases t) java_path' gen_dir now f = (Inr t, f') \<longrightarrow>
         max_path_width t = Max (set (map (\<lambda>tc. length (sy_path tc)) (testcases t))))"
proof -
  from run_case_written [of ps t echo_ret terminal_log tc w] assms
  obtain evs status where "trace (snd (run_case ps t echo_ret terminal_log tc w)) = trace w @ evs"
    and "status \<in> labels" and "written evs = [(res_path t, log_line t tc status)]"
    by auto
  then have "\<exists>status \<in> {''Compilation Error'', ''Accecpted'', ''Wrong Answer''}.
       written (new_events w (snd (run_case ps t echo_ret terminal_log tc w))) =
         [(res_path t,
           sy_path tc @ replicate (max_path_width t - length (sy_path tc)) CHR '' ''
           @ [CHR '' '', TAB] @ status @ [NL])]"
    by (auto simp: new_events_append labels_def log_line_def ljust_def)
  moreover have "\<forall>compiler_path' java_path' gen_dir now f f'.
         init compiler_path' (testcases t) java_path' gen_dir now f = (Inr t, f') \<longrightarrow>
         max_path_width t = Max (set (map (\<lambda>tc. length (sy_path tc)) (testcases t)))"
    using init_max_path_width by blast
  ultimately show ?thesis
    by blast
qed

theorem log_line_format_witness:
  "fst (run_case progs0 t0 True False tcA w0) = Inr ()
   \<and> written (new_events w0 (snd (run_case progs0 t0 True False tcA w0))) =
       [(''g/testgen-0704-090503/result.log'', ''a.sy'' @ '' '' @ [CHR '' '', TAB] @ ''Accecpted'' @ [NL])]
   \<and> init ''c.jar'' (testcases t0) ''java'' ''g'' now0 fs0 = (Inr t0, files w0)
   \<and> max_path_width t0 = Max (set (map (\<lambda>tc. length (sy_path tc)) (testcases t0)))"
proof -
  have h: "fst (run_case progs0 t0 True False tcA w0) = Inr ()"
    by code_simp
  have w: "written (new_events w0 (snd (run_case progs0 t0 True False tcA w0))) =
       [(''g/testgen-0704-090503/result.log'', ''a.sy'' @ '' '' @ [CHR '' '', TAB] @ ''Accecpted'' @ [NL])]"
    by code_simp
  have i: "init ''c.jar'' (testcases t0) ''java'' ''g'' now0 fs0 = (Inr t0, files w0)"
    using init_t0 by (simp add: prod_eq_iff w0_def t0_def)
  from log_line_format [OF h] i have "max_path_width t0 = Max (set (map (\<lambda>tc. length (sy_path tc)) (testcases t0)))"
    by blast
  with h w i show ?thesis
    by blast
qed

text \<open>The line of the source is not the line of the specification: between the padded path and
  the tab there is a space. For \<open>bb.sy\<close>, the longest path of the batch, the line
  written starts with \<open>bb.sy\<close>, a space and a tab.\<close>

theorem log_line_single_tab_counterexample:
  "fst (case_status progs0 t0 True tcB w0) = Inr ''Wrong Answer''
   \<and> written (new_events w0 (snd (run_case progs0 t0 True False tcB w0))) =
       [(res_path t0, ''bb.sy'' @ [CHR '' '', TAB] @ ''Wrong Answer'' @ [NL])]
   \<and> spec_log_line t0 tcB ''Wrong Answer'' = ''bb.sy'' @ [TAB] @ ''Wrong Answer'' @ [NL]
   \<and> written (new_events w0 (snd (run_case progs0 t0 True False tcB w0))) \<noteq>
       [(res_path t0, spec_log_line t0 tcB ''Wrong Answer'')]"
  by code_simp

text \<open>
  C6. The lines \<open>run\<close> writes to the result log are the lines of the test cases in the
  order of the list: the first line is for the first case, the second for the second, and so
  on, each with one of the three labels, whatever the labels are. When \<open>run\<close> completes
  there is exactly one line for every case; when an exception ends it early, the lines
  written are those of an initial segment of the list. When \<open>run\<close> completes and neither
  the compiler nor the linker touches the log, and no capture file is the log, the log
  file holds exactly these lines in this order.
\<close>

theorem run_logs_in_order:
  "\<exists>statuses. length statuses \<le> length (testcases t)
     \<and> set statuses \<subseteq> {''Compilation Error'', ''Accecpted'', ''Wrong Answer''}
     \<and> written (new_events w (snd (run ps t echo_ret terminal_log w))) =
         map (\<lambda>(tc, status). (res_path t, log_line t tc status)) (zip (testcases t) statuses)
     \<and> (fst (run ps t echo_ret terminal_log w) = Inr () \<longrightarrow> length statuses = length (testcases t))
     \<and> (fst (run ps t echo_ret terminal_log w) = Inr ()
         \<and> (\<forall>argv f f'. compiler ps argv f = Some f' \<longrightarrow> f' (res_path t) = f (res_path t))
         \<and> (\<forall>argv f f'. linker ps argv f = Some f' \<longrightarrow> f' (res_path t) = f (res_path t))
         \<and> (\<forall>tc \<in> set (testcases t). out_path t tc \<noteq> res_path t) \<longrightarrow>
         files (snd (run ps t echo_ret terminal_log w)) (res_path t) =
           Some (File (concat (map (\<lambda>(tc, status). log_line t tc status)
                                (zip (testcases t) statuses)))))"
proof -
  let ?w' = "snd (run ps t echo_ret terminal_log w)"
  have "\<exists>statuses evs. length statuses \<le> length (testcases t) \<and> set statuses \<subseteq> labels
     \<and> trace ?w' = trace w @ evs
     \<and> written evs = map (\<lambda>(tc, status). (res_path t, log_line t tc status)) (zip (testcases t) statuses)
     \<and> (fst (run ps t echo_ret terminal_log w) = Inr () \<longrightarrow> length statuses = length (testcases t))"
  proof (cases "open_w (res_path t) (files w)")
    case (Inl e)
    then have "run ps t echo_ret terminal_log w = (Inl e, w)"
      by (simp add: run_def)
    then have "length ([] :: string list) \<le> length (testcases t) \<and> set [] \<subseteq> labels
       \<and> trace ?w' = trace w @ []
       \<and> written [] = map (\<lambda>(tc, status). (res_path t, log_line t tc status)) (zip (testcases t) [])
       \<and> (fst (run ps t echo_ret terminal_log w) = Inr () \<longrightarrow> length ([] :: string list) = length (testcases t))"
      by simp
    then show ?thesis
      by blast
  next
    case (Inr f1)
    then have "run ps t echo_ret terminal_log w =
        run_loop ps t echo_ret terminal_log (testcases t) (w\<lparr>files := f1\<rparr>)"
      by (simp add: run_def)
    with run_loop_written [of "testcases t" ps t echo_ret terminal_log "w\<lparr>files := f1\<rparr>"]
    show ?thesis
      by simp
  qed
  then obtain statuses evs where
    len: "length statuses \<le> length (testcases t)" and lab: "set statuses \<subseteq> labels"
    and tr: "trace ?w' = trace w @ evs"
    and wr: "written evs = map (\<lambda>(tc, status). (res_path t, log_line t tc status)) (zip (testcases t) statuses)"
    and all: "fst (run ps t echo_ret terminal_log w) = Inr () \<longrightarrow> length statuses = length (testcases t)"
    by blast
  from tr have ne: "new_events w ?w' = evs"
    by (rule new_events_append)
  have "map snd (map (\<lambda>(tc, status). (res_path t, log_line t tc status)) (zip (testcases t) statuses))
      = map (\<lambda>(tc, status). log_line t tc status) (zip (testcases t) statuses)"
    by (simp add: case_prod_beta)
  with wr ne have lines: "map snd (written (new_events w ?w'))
      = map (\<lambda>(tc, status). log_line t tc status) (zip (testcases t) statuses)"
    by simp
  have "fst (run ps t echo_ret terminal_log w) = Inr ()
         \<and> (\<forall>argv f f'. compiler ps argv f = Some f' \<longrightarrow> f' (res_path t) = f (res_path t))
         \<and> (\<forall>argv f f'. linker ps argv f = Some f' \<longrightarrow> f' (res_path t) = f (res_path t))
         \<and> (\<forall>tc \<in> set (testcases t). out_path t tc \<noteq> res_path t) \<longrightarrow>
         files ?w' (res_path t) =
           Some (File (concat (map (\<lambda>(tc, status). log_line t tc status)
                                (zip (testcases t) statuses))))"
    using run_log [of ps t echo_ret terminal_log w] lines by simp
  with len lab wr ne all show ?thesis
    unfolding labels_def by blast
qed

theorem run_logs_in_order_witness:
  "fst (run progs0 t0 True True w0) = Inr ()
   \<and> map snd (written (new_events w0 (snd (run progs0 t0 True True w0)))) =
       [''a.sy'' @ '' '' @ [CHR '' '', TAB] @ ''Accecpted'' @ [NL],
        ''bb.sy'' @ [CHR '' '', TAB] @ ''Wrong Answer'' @ [NL],
        ''c.sy'' @ '' '' @ [CHR '' '', TAB] @ ''Compilation Error'' @ [NL],
        ''d.sy'' @ '' '' @ [CHR '' '', TAB] @ ''Compilation Error'' @ [NL]]
   \<and> (\<exists>statuses. length statuses = 4
        \<and> written (new_events w0 (snd (run progs0 t0 True True w0))) =
            map (\<lambda>(tc, status). (res_path t0, log_line t0 tc status)) (zip [tcA, tcB, tcC, tcD] statuses)
        \<and> files (snd (run progs0 t0 True True w0)) (res_path t0) =
            Some (File (concat (map (\<lambda>(tc, status). log_line t0 tc status)
                                 (zip [tcA, tcB, tcC, tcD] statuses)))))"
proof -
  have h: "fst (run progs0 t0 True True w0) = Inr ()"
    by code_simp
  have l: "map snd (written (new_events w0 (snd (run progs0 t0 True True w0)))) =
       [''a.sy'' @ '' '' @ [CHR '' '', TAB] @ ''Accecpted'' @ [NL],
        ''bb.sy'' @ [CHR '' '', TAB] @ ''Wrong Answer'' @ [NL],
        ''c.sy'' @ '' '' @ [CHR '' '', TAB] @ ''Compilation Error'' @ [NL],
        ''d.sy'' @ '' '' @ [CHR '' '', TAB] @ ''Compilation Error'' @ [NL]]"
    by code_simp
  have tc: "testcases t0 = [tcA, tcB, tcC, tcD]"
    by (simp add: t0_def)
  have fc: "\<forall>argv f f'. compiler progs0 argv f = Some f' \<longrightarrow> f' (res_path t0) = f (res_path t0)"
    by (auto simp: progs0_def t0_def split: if_splits)
  have fl: "\<forall>argv f f'. linker progs0 argv f = Some f' \<longrightarrow> f' (res_path t0) = f (res_path t0)"
    by (auto simp: progs0_def t0_def split: if_splits)
  have o: "list_all (\<lambda>tc. out_path t0 tc \<noteq> res_path t0) (testcases t0)"
    by code_simp
  then have fo: "\<forall>tc \<in> set (testcases t0). out_path t0 tc \<noteq> res_path t0"
    by (simp only: list_all_iff)
  from run_logs_in_order [of t0 w0 progs0 True True] obtain statuses where
    s: "written (new_events w0 (snd (run progs0 t0 True True w0))) =
         map (\<lambda>(tc, status). (res_path t0, log_line t0 tc status)) (zip (testcases t0) statuses)"
    and len: "fst (run progs0 t0 True True w0) = Inr () \<longrightarrow> length statuses = length (testcases t0)"
    and fil: "fst (run progs0 t0 True True w0) = Inr ()
         \<and> (\<forall>argv f f'. compiler progs0 argv f = Some f' \<longrightarrow> f' (res_path t0) = f (res_path t0))
         \<and> (\<forall>argv f f'. linker progs0 argv f = Some f' \<longrightarrow> f' (res_path t0) = f (res_path t0))
         \<and> (\<forall>tc \<in> set (testcases t0). out_path t0 tc \<noteq> res_path t0) \<longrightarrow>
         files (snd (run progs0 t0 True True w0)) (res_path t0) =
           Some (File (concat (map (\<lambda>(tc, status). log_line t0 tc status)
                                (zip (testcases t0) statuses))))"
    by blast
  from len h tc have "length statuses = 4"
    by simp
  moreover from fil h fc fl fo have "files (snd (run progs0 t0 True True w0)) (res_path t0) =
           Some (File (concat (map (\<lambda>(tc, status). log_line t0 tc status)
                                (zip (testcases t0) statuses))))"
    by blast
  ultimately have "\<exists>statuses. length statuses = 4
        \<and> written (new_events w0 (snd (run progs0 t0 True True w0))) =
            map (\<lambda>(tc, status). (res_path t0, log_line t0 tc status)) (zip [tcA, tcB, tcC, tcD] statuses)
        \<and> files (snd (run progs0 t0 True True w0)) (res_path t0) =
            Some (File (concat (map (\<lambda>(tc, status). log_line t0 tc status)
                                 (zip [tcA, tcB, tcC, tcD] statuses))))"
    using s tc by auto
  with h l show ?thesis
    by blast
qed

subsection \<open>The run directory\<close>

text \<open>
  C7, as amended. The names of the run directories of two testers constructed at valid
  clock readings are equal if and only if the two readings agree in month, day, hour,
  minute and second. Readings that differ in one of these fields give distinct names.
\<close>

theorem run_dir_name_distinct_iff:
  assumes "valid_datetime d1" and "valid_datetime d2"
  shows "run_dir_name d1 = run_dir_name d2 \<longleftrightarrow>
     month d1 = month d2 \<and> day d1 = day d2 \<and> hour d1 = hour d2 \<and> minute d1 = minute d2
     \<and> second d1 = second d2"
proof
  assume "run_dir_name d1 = run_dir_name d2"
  then have e: "pad2 (month d1) @ pad2 (day d1) @ ''-'' @ pad2 (hour d1) @ pad2 (minute d1) @ pad2 (second d1)
      = pad2 (month d2) @ pad2 (day d2) @ ''-'' @ pad2 (hour d2) @ pad2 (minute d2) @ pad2 (second d2)"
    by (simp add: run_dir_name_def strftime_def)
  from assms have b: "month d1 < 100" "month d2 < 100" "day d1 < 100" "day d2 < 100"
    "hour d1 < 100" "hour d2 < 100" "minute d1 < 100" "minute d2 < 100"
    "second d1 < 100" "second d2 < 100"
    by (simp_all add: valid_datetime_def)
  from e b have "pad2 (month d1) = pad2 (month d2)" "pad2 (day d1) = pad2 (day d2)"
    "pad2 (hour d1) = pad2 (hour d2)" "pad2 (minute d1) = pad2 (minute d2)"
    "pad2 (second d1) = pad2 (second d2)"
    by (simp_all add: pad2_length)
  with b show "month d1 = month d2 \<and> day d1 = day d2 \<and> hour d1 = hour d2 \<and> minute d1 = minute d2
     \<and> second d1 = second d2"
    by (auto dest: pad2_inj)
next
  assume "month d1 = month d2 \<and> day d1 = day d2 \<and> hour d1 = hour d2 \<and> minute d1 = minute d2
     \<and> second d1 = second d2"
  then show "run_dir_name d1 = run_dir_name d2"
    by (simp add: run_dir_name_def strftime_def)
qed

theorem run_dir_name_distinct_iff_witness:
  "valid_datetime now0 \<and> valid_datetime now2 \<and> valid_datetime now1
   \<and> run_dir_name now0 \<noteq> run_dir_name now2 \<and> run_dir_name now0 = run_dir_name now1"
proof -
  have v: "valid_datetime now0" "valid_datetime now2" "valid_datetime now1"
    by (simp_all add: valid_datetime_def now0_def now1_def now2_def)
  from run_dir_name_distinct_iff [OF v(1) v(2)] run_dir_name_distinct_iff [OF v(1) v(3)] v
  show ?thesis
    by (simp add: now0_def now1_def now2_def)
qed

text \<open>Two readings within one second give the same name: two testers constructed then
  under different \<open>gen_dir\<close> both exist and their run directories bear one name, and
  under the same \<open>gen_dir\<close> the second construction raises FileExistsError.\<close>

theorem run_dir_name_same_second_counterexample:
  "now0 \<noteq> now1
   \<and> run_dir_name now0 = run_dir_name now1
   \<and> map_sum id root_dir (fst (init ''c.jar'' [tcA] ''java'' ''g'' now0 fs0))
       = Inr ''g/testgen-0704-090503''
   \<and> map_sum id root_dir (fst (init ''c.jar'' [tcA] ''java'' ''h'' now1
         (snd (init ''c.jar'' [tcA] ''java'' ''g'' now0 fs0))))
       = Inr ''h/testgen-0704-090503''
   \<and> fst (init ''c.jar'' [tcA] ''java'' ''g'' now1
         (snd (init ''c.jar'' [tcA] ''java'' ''g'' now0 fs0))) = Inl FileExistsError"
proof -
  have "now0 \<noteq> now1"
    by (simp add: now0_def now1_def)
  moreover have "run_dir_name now0 = run_dir_name now1"
    by code_simp
  moreover have "map_sum id root_dir (fst (init ''c.jar'' [tcA] ''java'' ''g'' now0 fs0))
       = Inr ''g/testgen-0704-090503''"
    by code_simp
  moreover have "map_sum id root_dir (fst (init ''c.jar'' [tcA] ''java'' ''h'' now1
         (snd (init ''c.jar'' [tcA] ''java'' ''g'' now0 fs0))))
       = Inr ''h/testgen-0704-090503''"
    by code_simp
  moreover have "fst (init ''c.jar'' [tcA] ''java'' ''g'' now1
         (snd (init ''c.jar'' [tcA] ''java'' ''g'' now0 fs0))) = Inl FileExistsError"
    by code_simp
  ultimately show ?thesis
    by blast
qed

subsection \<open>The empty batch\<close>

text \<open>
  C10. Constructing a tester with an empty list of test cases raises ValueError, from
  \<open>max\<close> of an empty sequence, and leaves the file system as it was: no run directory,
  subdirectory or log file has been created.
\<close>

theorem init_empty_batch:
  "init compiler_path' [] java_path' gen_dir now f = (Inl ValueError, f)"
  by (simp add: init_def)

text \<open>On the file system \<open>fs0\<close> the empty batch leaves no run directory behind, where a
  batch of one test case creates it with its two subdirectories.\<close>

theorem init_empty_batch_witness:
  "fst (init ''c.jar'' [] ''java'' ''g'' now0 fs0) = Inl ValueError
   \<and> map (os_path_exists (snd (init ''c.jar'' [] ''java'' ''g'' now0 fs0)))
        [''g'', ''g/testgen-0704-090503'', ''g/testgen-0704-090503/ir'',
         ''g/testgen-0704-090503/out'', ''g/testgen-0704-090503/result.log'']
       = [False, False, False, False, False]
   \<and> map (os_path_exists (snd (init ''c.jar'' [tcA] ''java'' ''g'' now0 fs0)))
        [''g'', ''g/testgen-0704-090503'', ''g/testgen-0704-090503/ir'',
         ''g/testgen-0704-090503/out'', ''g/testgen-0704-090503/result.log'']
       = [True, True, True, True, False]"
proof -
  have e: "init ''c.jar'' [] ''java'' ''g'' now0 fs0 = (Inl ValueError, fs0)"
    by (rule init_empty_batch)
  have "map (os_path_exists fs0)
        [''g'', ''g/testgen-0704-090503'', ''g/testgen-0704-090503/ir'',
         ''g/testgen-0704-090503/out'', ''g/testgen-0704-090503/result.log'']
       = [False, False, False, False, False]"
    by code_simp
  moreover have "map (os_path_exists (snd (init ''c.jar'' [tcA] ''java'' ''g'' now0 fs0)))
        [''g'', ''g/testgen-0704-090503'', ''g/testgen-0704-090503/ir'',
         ''g/testgen-0704-090503/out'', ''g/testgen-0704-090503/result.log'']
       = [True, True, True, True, False]"
    by code_simp
  ultimately show ?thesis
    using e by simp
qed

end
